theory Spec2Isabelle
  imports Main "HOL-Library.AList" "HOL-Library.Sublist" "HOL-Library.Multiset"
begin

section \<open>Expiring cache (src/utils/cache.ts)\<close>

subsection \<open>Cache keys\<close>

text \<open>
  \<^verbatim>\<open>const CACHE_PREFIX = 'github-org-analyser';\<close>

  \<^verbatim>\<open>function getCacheKey(orgName, dataType) {
    return `${CACHE_PREFIX}-${orgName}-${dataType}`;
  }\<close>

  Both arguments are strings at every call site (the organisation login and a
  report-type literal such as \<open>cleanup\<close> or \<open>security-repo\<close>).
\<close>

definition CACHE_PREFIX :: string where
  "CACHE_PREFIX = ''github-org-analyser''"

definition getCacheKey :: "string \<Rightarrow> string \<Rightarrow> string" where
  "getCacheKey orgName dataType = CACHE_PREFIX @ ''-'' @ orgName @ ''-'' @ dataType"

text \<open>
  The report types: the string literals passed to \<open>saveToCache\<close> and
  \<open>loadFromCache\<close> by the components.
\<close>

definition reportTypes :: "string list" where
  "reportTypes = [''home'', ''cleanup'', ''security'', ''security-repo'', ''security-org'',
                  ''governance-repo'', ''archive'', ''forked-repos'', ''costs'']"

text \<open>A string that does not contain the separator character.\<close>

definition dashFree :: "string \<Rightarrow> bool" where
  "dashFree s = (CHR ''-'' \<notin> set s)"

subsection \<open>JavaScript values, errors and the runtime library\<close>

text \<open>
  Values that travel through \<open>JSON.parse\<close> and \<open>JSON.stringify\<close>. Numbers are the
  integer-valued ones the program stores (epoch milliseconds, counts). A JavaScript value
  that may be \<open>undefined\<close> is a \<open>json option\<close>: \<open>None\<close> is \<open>undefined\<close>,
  \<open>Some JNull\<close> is \<open>null\<close>.
\<close>

datatype json =
    JNull
  | JBool bool
  | JNum int
  | JStr string
  | JArr "json list"
  | JObj "(string \<times> json) list"

text \<open>
  Exceptions are values. \<open>GitHubApiError\<close> is the error thrown by the API client's
  \<open>get\<close>, which carries the HTTP status; the others have no \<open>status\<close> property.
\<close>

datatype js_error =
    QuotaExceededError
  | SyntaxError
  | TypeError
  | GitHubApiError nat

fun status :: "js_error \<Rightarrow> nat option" where
  "status (GitHubApiError s) = Some s"
| "status _ = None"

text \<open>
  The parts of the JavaScript runtime the program calls but does not define are
  parameters of the model: \<open>JSON.parse\<close> (\<open>None\<close> when it throws a SyntaxError),
  \<open>JSON.stringify\<close>, and the numeric coercion of strings, arrays and objects
  (\<open>None\<close> for NaN) used by the relational operator.
\<close>

record js_runtime =
  JSON_parse :: "string \<Rightarrow> json option"
  JSON_stringify :: "json \<Rightarrow> string"
  ToNumber :: "json \<Rightarrow> int option"

text \<open>
  Reading a property: \<open>null.p\<close> throws a TypeError, an object yields the member or
  \<open>undefined\<close>, and the other values have none of the properties read by this program
  (\<open>expiresAt\<close>, \<open>data\<close>).
\<close>

fun get_prop :: "json \<Rightarrow> string \<Rightarrow> js_error + json option" where
  "get_prop JNull p = Inl TypeError"
| "get_prop (JObj members) p = Inr (map_of members p)"
| "get_prop _ p = Inr None"

fun to_number :: "js_runtime \<Rightarrow> json option \<Rightarrow> int option" where
  "to_number rt None = None"
| "to_number rt (Some JNull) = Some 0"
| "to_number rt (Some (JBool b)) = Some (if b then 1 else 0)"
| "to_number rt (Some (JNum n)) = Some n"
| "to_number rt (Some v) = ToNumber rt v"

text \<open>\<open>n > v\<close> for a number \<open>n\<close>: false when \<open>v\<close> coerces to NaN.\<close>

definition js_gt :: "js_runtime \<Rightarrow> int \<Rightarrow> json option \<Rightarrow> bool" where
  "js_gt rt n v = (case to_number rt v of None \<Rightarrow> False | Some m \<Rightarrow> n > m)"

subsection \<open>localStorage\<close>

text \<open>
  The browser's key/value store: the entries in index order (\<open>localStorage.key(i)\<close>),
  with a capacity in characters. \<open>setItem\<close> throws \<open>QuotaExceededError\<close> when the
  store would grow beyond the capacity and then leaves the store unchanged.
\<close>

record storage =
  items :: "(string \<times> string) list"
  quota :: nat

definition used :: "(string \<times> string) list \<Rightarrow> nat" where
  "used kvs = sum_list (map (\<lambda>(k, v). length k + length v) kvs)"

definition getItem :: "storage \<Rightarrow> string \<Rightarrow> string option" where
  "getItem st k = map_of (items st) k"

definition setItem :: "storage \<Rightarrow> string \<Rightarrow> string \<Rightarrow> js_error + storage" where
  "setItem st k v =
     (let items' = AList.update k v (items st)
      in if used items' \<le> quota st then Inr (st\<lparr>items := items'\<rparr>)
         else Inl QuotaExceededError)"

definition removeItem :: "storage \<Rightarrow> string \<Rightarrow> storage" where
  "removeItem st k = st\<lparr>items := AList.delete k (items st)\<rparr>"

definition storage_keys :: "storage \<Rightarrow> string list" where
  "storage_keys st = map fst (items st)"

subsection \<open>clearExpiredCaches\<close>

text \<open>
  The body of the inner \<open>try\<close> of the sweep, for one key: does the entry count as
  expired? \<open>Inl\<close> is an exception, which the inner \<open>catch\<close> turns into a removal.
  \<^verbatim>\<open>
          const cached = localStorage.getItem(key);
          const cacheObject = JSON.parse(cached);
          if (now > cacheObject.expiresAt) { keysToRemove.push(key); }
  \<close>
  \<open>getItem\<close> of a key that is not stored returns \<open>null\<close>, which \<open>JSON.parse\<close>
  turns into \<open>null\<close>, whose property read throws.
\<close>

definition entryExpired :: "js_runtime \<Rightarrow> int \<Rightarrow> storage \<Rightarrow> string \<Rightarrow> js_error + bool" where
  "entryExpired rt now st key =
     (case getItem st key of
        None \<Rightarrow> Inl TypeError
      | Some cached \<Rightarrow>
          (case JSON_parse rt cached of
             None \<Rightarrow> Inl SyntaxError
           | Some cacheObject \<Rightarrow>
               (case get_prop cacheObject ''expiresAt'' of
                  Inl e \<Rightarrow> Inl e
                | Inr expiresAt \<Rightarrow> Inr (js_gt rt now expiresAt))))"

text \<open>
  The \<open>for\<close> loop over the keys, with \<open>keysToRemove\<close> as accumulator:
  \<^verbatim>\<open>
      if (key && key.startsWith(CACHE_PREFIX)) {
        try { ... if (now > cacheObject.expiresAt) keysToRemove.push(key); }
        catch (error) { keysToRemove.push(key); }
      }
  \<close>
\<close>

fun findExpired :: "js_runtime \<Rightarrow> int \<Rightarrow> storage \<Rightarrow> string list \<Rightarrow> string list \<Rightarrow> string list" where
  "findExpired rt now st [] keysToRemove = keysToRemove"
| "findExpired rt now st (key # keys) keysToRemove =
     findExpired rt now st keys
       (if key \<noteq> [] \<and> prefix CACHE_PREFIX key then
          (case entryExpired rt now st key of
             Inr expired \<Rightarrow> if expired then keysToRemove @ [key] else keysToRemove
           | Inl error \<Rightarrow> keysToRemove @ [key])
        else keysToRemove)"

text \<open>
  \<^verbatim>\<open>keysToRemove.forEach(key => localStorage.removeItem(key));\<close>
  Nothing between the outer \<open>try\<close> and its \<open>catch\<close> can throw outside the inner
  \<open>try\<close>, so the function returns the new store.
\<close>

definition clearExpiredCaches :: "js_runtime \<Rightarrow> int \<Rightarrow> storage \<Rightarrow> storage" where
  "clearExpiredCaches rt now st =
     foldl removeItem st (findExpired rt now st (storage_keys st) [])"

subsection \<open>saveToCache and loadFromCache\<close>

text \<open>The object literal \<open>cacheObject\<close> built by \<open>saveToCache\<close>.\<close>

definition cacheEntry :: "json \<Rightarrow> int \<Rightarrow> int \<Rightarrow> json" where
  "cacheEntry data now ttlHours =
     JObj [(''data'', data), (''timestamp'', JNum now),
           (''expiresAt'', JNum (now + ttlHours * 60 * 60 * 1000))]"

text \<open>
  \<^verbatim>\<open>
  try { ... localStorage.setItem(key, JSON.stringify(cacheObject)); }
  catch (e) {
    if (e.name === 'QuotaExceededError') { clearExpiredCaches(); }
    else { console.error(...); }
  }
  \<close>
  The result is the store after the call; the clock is read once per call.
\<close>

definition saveToCache ::
  "js_runtime \<Rightarrow> int \<Rightarrow> storage \<Rightarrow> string \<Rightarrow> string \<Rightarrow> json \<Rightarrow> int \<Rightarrow> storage" where
  "saveToCache rt now st orgName dataType data ttlHours =
     (let key = getCacheKey orgName dataType
      in case setItem st key (JSON_stringify rt (cacheEntry data now ttlHours)) of
           Inr st' \<Rightarrow> st'
         | Inl e \<Rightarrow> if e = QuotaExceededError then clearExpiredCaches rt now st else st)"

text \<open>
  The body of the \<open>try\<close> of \<open>loadFromCache\<close>; the result is the returned value and the
  store. \<open>!cached\<close> holds for \<open>null\<close> and for the empty string.
\<close>

definition loadFromCache_try ::
  "js_runtime \<Rightarrow> int \<Rightarrow> storage \<Rightarrow> string \<Rightarrow> string \<Rightarrow> js_error + (json option \<times> storage)" where
  "loadFromCache_try rt now st orgName dataType =
     (let key = getCacheKey orgName dataType
      in case getItem st key of
           None \<Rightarrow> Inr (Some JNull, st)
         | Some cached \<Rightarrow>
             if cached = [] then Inr (Some JNull, st)
             else
               (case JSON_parse rt cached of
                  None \<Rightarrow> Inl SyntaxError
                | Some cacheObject \<Rightarrow>
                    (case get_prop cacheObject ''expiresAt'' of
                       Inl e \<Rightarrow> Inl e
                     | Inr expiresAt \<Rightarrow>
                         if js_gt rt now expiresAt
                         then Inr (Some JNull, removeItem st key)
                         else
                           (case get_prop cacheObject ''data'' of
                              Inl e \<Rightarrow> Inl e
                            | Inr data \<Rightarrow> Inr (data, st)))))"

text \<open>
  \<^verbatim>\<open>catch (e) { console.error('Error loading from cache:', e); return null; }\<close>
\<close>

definition loadFromCache ::
  "js_runtime \<Rightarrow> int \<Rightarrow> storage \<Rightarrow> string \<Rightarrow> string \<Rightarrow> json option \<times> storage" where
  "loadFromCache rt now st orgName dataType =
     (case loadFromCache_try rt now st orgName dataType of
        Inr result \<Rightarrow> result
      | Inl e \<Rightarrow> (Some JNull, st))"

subsection \<open>A runtime given by a table\<close>

text \<open>
  For evaluating the model on concrete inputs, a runtime whose \<open>JSON.parse\<close> and
  \<open>JSON.stringify\<close> are given by a finite table of texts and the values they denote:
  texts outside the table do not parse.
\<close>

definition table_runtime :: "(string \<times> json) list \<Rightarrow> js_runtime" where
  "table_runtime tbl =
     \<lparr> JSON_parse = map_of tbl,
       JSON_stringify = (\<lambda>v. case find (\<lambda>(t, w). w = v) tbl of
                                 Some (t, w) \<Rightarrow> t | None \<Rightarrow> ''null''),
       ToNumber = (\<lambda>v. None) \<rparr>"

section \<open>Remote client (src/services/githubApi.ts)\<close>

text \<open>
  The network is a parameter: \<open>fetch\<close> maps the requested URL (the headers are fixed
  by the service object) to a rejected promise or to a response with its HTTP status and
  body text. An \<open>async\<close> method is modelled by its outcome: \<open>Inr\<close> the value it
  resolves to, \<open>Inl\<close> the error it rejects with.
\<close>

datatype fetch_result = Rejected | Response nat string

definition GITHUB_API_BASE :: string where
  "GITHUB_API_BASE = ''https://api.github.com''"

text \<open>\<open>response.ok\<close>: the status is in the range 200 to 299.\<close>

definition response_ok :: "nat \<Rightarrow> bool" where
  "response_ok s = (200 \<le> s \<and> s \<le> 299)"

text \<open>
  \<^verbatim>\<open>
  async get(endpoint, params = {}) {
    const url = new URL(`${GITHUB_API_BASE}${endpoint}`);
    ...
    const response = await fetch(url.toString(), { headers: this.headers });
    if (!response.ok) {
      const error = new Error(`GitHub API error: ${response.status}`);
      error.status = response.status;
      throw error;
    }
    return await response.json();
  }
  \<close>
  with the default empty \<open>params\<close>, as the callers modelled here use it. The URL
  asked of \<open>fetch\<close> is the concatenation, without the normalisation done by
  \<open>new URL\<close>. A rejected \<open>fetch\<close> is a TypeError; \<open>response.json()\<close> rejects
  with a SyntaxError when the body is not JSON.
\<close>

definition get :: "js_runtime \<Rightarrow> (string \<Rightarrow> fetch_result) \<Rightarrow> string \<Rightarrow> js_error + json" where
  "get rt fetch endpoint =
     (case fetch (GITHUB_API_BASE @ endpoint) of
        Rejected \<Rightarrow> Inl TypeError
      | Response s body \<Rightarrow>
          if \<not> response_ok s then Inl (GitHubApiError s)
          else (case JSON_parse rt body of
                  None \<Rightarrow> Inl SyntaxError
                | Some v \<Rightarrow> Inr v))"

definition protection_endpoint :: "string \<Rightarrow> string \<Rightarrow> string \<Rightarrow> string" where
  "protection_endpoint owner repo branch =
     ''/repos/'' @ owner @ ''/'' @ repo @ ''/branches/'' @ branch @ ''/protection''"

text \<open>
  \<^verbatim>\<open>
  async isBranchProtected(owner, repo, branch) {
    try {
      await this.get(`/repos/${owner}/${repo}/branches/${branch}/protection`);
      return true; // 200 response means protected
    } catch (error) {
      if (error.status === 404) { return false; }
      console.warn(...);
      throw error; // Other errors should be re-thrown
    }
  }
  \<close>
\<close>

definition isBranchProtected ::
  "js_runtime \<Rightarrow> (string \<Rightarrow> fetch_result) \<Rightarrow> string \<Rightarrow> string \<Rightarrow> string \<Rightarrow> js_error + bool" where
  "isBranchProtected rt fetch owner repo branch =
     (case get rt fetch (protection_endpoint owner repo branch) of
        Inr v \<Rightarrow> Inr True
      | Inl error \<Rightarrow> if status error = Some 404 then Inr False else Inl error)"

definition vulnerability_alerts_url :: "string \<Rightarrow> string \<Rightarrow> string" where
  "vulnerability_alerts_url owner repo =
     GITHUB_API_BASE @ ''/repos/'' @ owner @ ''/'' @ repo @ ''/vulnerability-alerts''"

text \<open>
  \<^verbatim>\<open>
  async isDependabotEnabled(owner, repo) {
    try {
      const response = await fetch(`${GITHUB_API_BASE}/repos/${owner}/${repo}/vulnerability-alerts`, ...);
      // 204 = enabled, 404 = disabled
      return response.status === 204;
    } catch (error) {
      console.warn(...);
      return true; // Assume enabled on error to avoid false positives
    }
  }
  \<close>
  Every path returns a boolean, so the result has no error alternative.
\<close>

definition isDependabotEnabled :: "(string \<Rightarrow> fetch_result) \<Rightarrow> string \<Rightarrow> string \<Rightarrow> bool" where
  "isDependabotEnabled fetch owner repo =
     (case fetch (vulnerability_alerts_url owner repo) of
        Response s body \<Rightarrow> s = 204
      | Rejected \<Rightarrow> True)"

section \<open>Report builders\<close>

subsection \<open>Data fetched from the remote API\<close>

text \<open>
  The fields of the API objects that the builders read. Dates are epoch milliseconds
  (the value of \<open>new Date(s)\<close> for the ISO text \<open>s\<close> sent by the API). The field
  \<open>is_private\<close> is the property \<open>private\<close> of a repository.
\<close>

record repo =
  name :: string
  html_url :: string
  archived :: bool
  fork :: bool
  is_private :: bool
  default_branch :: string
  pushed_at :: int

record branch =
  branch_name :: string

text \<open>
  Branch details: \<open>commit\<close> may be missing; \<open>author_date\<close> is
  \<open>commit.commit.author.date\<close>, \<open>author_login\<close> is \<open>commit.author?.login\<close>
  and \<open>author_name\<close> is \<open>commit.commit.author.name\<close>.
\<close>

record commit_info =
  author_date :: int
  author_login :: "string option"
  author_name :: string

record branch_details =
  commit :: "commit_info option"

record pull_request =
  pr_number :: nat
  pr_html_url :: string
  created_at :: int
  updated_at :: int

record team =
  permission :: string

text \<open>\<open>admin\<close> is \<open>collab.permissions.admin\<close>, \<open>None\<close> when \<open>permissions\<close> is missing.\<close>

record collaborator =
  admin :: "bool option"

text \<open>
  The severities of a Dependabot alert: \<open>alert.security_advisory?.severity\<close> and
  \<open>alert.security_vulnerability?.severity\<close>.
\<close>

record alert =
  advisory_severity :: "string option"
  vulnerability_severity :: "string option"

text \<open>
  The \<open>apiService\<close> object handed to a builder, as the outcome of each of its methods.
  The methods whose body catches every error and returns a default have no error
  alternative; the builders attach \<open>.catch\<close> to the others.
\<close>

record api_service =
  api_getOrgRepositories :: "string \<Rightarrow> js_error + repo list"
  api_getLastPullRequest :: "string \<Rightarrow> string \<Rightarrow> pull_request option"
  api_getRepoBranches :: "string \<Rightarrow> string \<Rightarrow> branch list"
  api_getOpenPullRequests :: "string \<Rightarrow> string \<Rightarrow> pull_request list"
  api_getBranchDetails :: "string \<Rightarrow> string \<Rightarrow> string \<Rightarrow> branch_details option"
  api_isBranchProtected :: "string \<Rightarrow> string \<Rightarrow> string \<Rightarrow> js_error + bool"
  api_getRepoTeams :: "string \<Rightarrow> string \<Rightarrow> js_error + team list"
  api_getRepoDirectCollaborators :: "string \<Rightarrow> string \<Rightarrow> js_error + collaborator list"
  api_isDependabotEnabled :: "string \<Rightarrow> string \<Rightarrow> js_error + bool"
  api_getDependabotAlerts :: "string \<Rightarrow> string \<Rightarrow> string \<Rightarrow> js_error + alert list"

text \<open>The calls a builder issues, in the order it issues them.\<close>

datatype api_call =
    GetOrgRepositories string
  | GetLastPullRequest string string
  | GetRepoBranches string string
  | GetOpenPullRequests string string
  | GetBranchDetails string string string
  | IsBranchProtected string string string
  | GetRepoTeams string string
  | GetRepoDirectCollaborators string string
  | IsDependabotEnabled string string
  | GetDependabotAlerts string string string
  | GetRepoCollaborators string string

subsection \<open>The active set\<close>

text \<open>
  \<^verbatim>\<open>const activeRepos = repos.filter(repo => !repo.archived && !repo.fork);\<close>

  The same statement opens the loop of the cleanup builder (CleanupNeeded.tsx, line 60),
  the repository-security builder (SecurityGovernanceRepo.jsx, line 59), the archive
  builder (ArchiveCandidates.jsx, line 54), the alert builder and the repository
  governance builder.
\<close>

definition activeRepos :: "repo list \<Rightarrow> repo list" where
  "activeRepos repos = filter (\<lambda>repo. \<not> archived repo \<and> \<not> fork repo) repos"

definition visibility :: "repo \<Rightarrow> string" where
  "visibility repo = (if is_private repo then ''private'' else ''public'')"

subsection \<open>Array.prototype.sort\<close>

text \<open>
  \<open>array.sort(cmp)\<close> is stable, and for a consistent comparator its result is the
  stable sorted arrangement, which insertion from the right computes: an element goes in
  front of the first element it does not sort after.
\<close>

fun insert_sorted :: "('a \<Rightarrow> 'a \<Rightarrow> int) \<Rightarrow> 'a \<Rightarrow> 'a list \<Rightarrow> 'a list" where
  "insert_sorted cmp x [] = [x]"
| "insert_sorted cmp x (y # ys) =
     (if cmp x y \<le> 0 then x # y # ys else y # insert_sorted cmp x ys)"

definition array_sort :: "('a \<Rightarrow> 'a \<Rightarrow> int) \<Rightarrow> 'a list \<Rightarrow> 'a list" where
  "array_sort cmp xs = foldr (insert_sorted cmp) xs []"

text \<open>
  \<open>array.slice(0, n)\<close> for an integer \<open>n\<close>: a negative \<open>n\<close> counts from the end.
\<close>

definition slice0 :: "int \<Rightarrow> 'a list \<Rightarrow> 'a list" where
  "slice0 n xs = (if n < 0 then take (nat (int (length xs) + n)) xs else take (nat n) xs)"

subsection \<open>The alert builder (Security)\<close>

record alert_row =
  alert_name :: string
  alert_url :: string
  alertsUrl :: string
  alert_visibility :: string
  totalAlerts :: nat
  critical :: nat
  high :: nat
  medium :: nat
  low :: nat

record disabled_row =
  disabled_name :: string
  disabled_url :: string
  disabled_settingsUrl :: string
  disabled_visibility :: string

record severity_counts =
  n_critical :: nat
  n_high :: nat
  n_medium :: nat
  n_low :: nat

text \<open>
  \<^verbatim>\<open>
  const severity = alert.security_advisory?.severity ||
                   alert.security_vulnerability?.severity || 'low';
  \<close>
  \<open>||\<close> skips \<open>undefined\<close> and the empty string.
\<close>

definition severity :: "alert \<Rightarrow> string" where
  "severity a =
     (case advisory_severity a of
        Some s \<Rightarrow> if s \<noteq> [] then s
                  else (case vulnerability_severity a of
                          Some t \<Rightarrow> if t \<noteq> [] then t else ''low''
                        | None \<Rightarrow> ''low'')
      | None \<Rightarrow> (case vulnerability_severity a of
                   Some t \<Rightarrow> if t \<noteq> [] then t else ''low''
                 | None \<Rightarrow> ''low''))"

text \<open>
  \<^verbatim>\<open>
  const severityCounts = { critical: 0, high: 0, medium: 0, low: 0 };
  dependabotAlerts.forEach(alert => {
    ...
    if (severity in severityCounts) { severityCounts[severity]++; }
  });
  \<close>
  A severity that is none of the four names leaves the four counters as they are.
\<close>

definition countSeverity :: "severity_counts \<Rightarrow> alert \<Rightarrow> severity_counts" where
  "countSeverity severityCounts a =
     (if severity a = ''critical'' then severityCounts\<lparr>n_critical := n_critical severityCounts + 1\<rparr>
      else if severity a = ''high'' then severityCounts\<lparr>n_high := n_high severityCounts + 1\<rparr>
      else if severity a = ''medium'' then severityCounts\<lparr>n_medium := n_medium severityCounts + 1\<rparr>
      else if severity a = ''low'' then severityCounts\<lparr>n_low := n_low severityCounts + 1\<rparr>
      else severityCounts)"

definition alertRow :: "repo \<Rightarrow> alert list \<Rightarrow> alert_row" where
  "alertRow repo dependabotAlerts =
     (let severityCounts =
            foldl countSeverity \<lparr>n_critical = 0, n_high = 0, n_medium = 0, n_low = 0\<rparr>
              dependabotAlerts
      in \<lparr> alert_name = name repo,
           alert_url = html_url repo,
           alertsUrl = html_url repo @ ''/security/dependabot'',
           alert_visibility = visibility repo,
           totalAlerts = length dependabotAlerts,
           critical = n_critical severityCounts,
           high = n_high severityCounts,
           medium = n_medium severityCounts,
           low = n_low severityCounts \<rparr>)"

definition disabledRow :: "repo \<Rightarrow> disabled_row" where
  "disabledRow repo =
     \<lparr> disabled_name = name repo,
       disabled_url = html_url repo,
       disabled_settingsUrl = html_url repo @ ''/security_analysis'',
       disabled_visibility = visibility repo \<rparr>"

text \<open>
  \<^verbatim>\<open>
  withAlerts.sort((a, b) => {
    if (b.critical !== a.critical) return b.critical - a.critical;
    if (b.high !== a.high) return b.high - a.high;
    if (b.medium !== a.medium) return b.medium - a.medium;
    return b.totalAlerts - a.totalAlerts;
  });
  \<close>
  The repository governance builder sorts its alert rows with the same comparator.
\<close>

definition compareAlerts :: "alert_row \<Rightarrow> alert_row \<Rightarrow> int" where
  "compareAlerts a b =
     (if critical b \<noteq> critical a then int (critical b) - int (critical a)
      else if high b \<noteq> high a then int (high b) - int (high a)
      else if medium b \<noteq> medium a then int (medium b) - int (medium a)
      else int (totalAlerts b) - int (totalAlerts a))"

text \<open>
  The loop over the active repositories, with the arrays \<open>withAlerts\<close> and
  \<open>dependabotDisabled\<close> and the calls issued so far:
  \<^verbatim>\<open>
  const isDependabotEnabled = await apiService.isDependabotEnabled(orgName, repo.name)
                                              .catch(() => true);
  if (!isDependabotEnabled) { dependabotDisabled.push({...}); continue; }
  const dependabotAlerts = await apiService.getDependabotAlerts(orgName, repo.name, 'open')
                                           .catch(() => []);
  if (dependabotAlerts.length > 0) { ... withAlerts.push({...}); }
  \<close>
\<close>

fun security_loop ::
  "api_service \<Rightarrow> string \<Rightarrow> repo list \<Rightarrow> alert_row list \<Rightarrow> disabled_row list \<Rightarrow> api_call list
     \<Rightarrow> alert_row list \<times> disabled_row list \<times> api_call list" where
  "security_loop api orgName [] withAlerts dependabotDisabled calls =
     (withAlerts, dependabotDisabled, calls)"
| "security_loop api orgName (repo # rest) withAlerts dependabotDisabled calls =
     (let isEnabled = (case api_isDependabotEnabled api orgName (name repo) of
                         Inr b \<Rightarrow> b | Inl e \<Rightarrow> True);
          calls1 = calls @ [IsDependabotEnabled orgName (name repo)]
      in if \<not> isEnabled
         then security_loop api orgName rest withAlerts
                (dependabotDisabled @ [disabledRow repo]) calls1
         else
           (let dependabotAlerts =
                  (case api_getDependabotAlerts api orgName (name repo) ''open'' of
                     Inr alerts \<Rightarrow> alerts | Inl e \<Rightarrow> []);
                calls2 = calls1 @ [GetDependabotAlerts orgName (name repo) ''open'']
            in security_loop api orgName rest
                 (if length dependabotAlerts > 0
                  then withAlerts @ [alertRow repo dependabotAlerts] else withAlerts)
                 dependabotDisabled calls2))"

record security_report =
  reposWithAlerts :: "alert_row list"
  dependabotDisabledRepos :: "disabled_row list"

text \<open>
  The \<open>try\<close> block of \<open>fetchData\<close> on a cache miss, up to the object handed to
  \<open>saveToCache\<close>; the failure of \<open>getOrgRepositories\<close> is the only one that reaches
  the outer \<open>catch\<close>.
\<close>

definition security_fetchData ::
  "api_service \<Rightarrow> string \<Rightarrow> js_error + (security_report \<times> api_call list)" where
  "security_fetchData api orgName =
     (case api_getOrgRepositories api orgName of
        Inl err \<Rightarrow> Inl err
      | Inr repos \<Rightarrow>
          (case security_loop api orgName (activeRepos repos) [] [] [GetOrgRepositories orgName] of
             (withAlerts, dependabotDisabled, calls) \<Rightarrow>
               Inr (\<lparr> reposWithAlerts = array_sort compareAlerts withAlerts,
                      dependabotDisabledRepos = dependabotDisabled \<rparr>, calls)))"

text \<open>
  The order the specification describes, for comparison with \<open>compareAlerts\<close>:
  descending count at each tier critical, high, medium, low, then descending total.
\<close>

definition compareAlerts_spec :: "alert_row \<Rightarrow> alert_row \<Rightarrow> int" where
  "compareAlerts_spec a b =
     (if critical b \<noteq> critical a then int (critical b) - int (critical a)
      else if high b \<noteq> high a then int (high b) - int (high a)
      else if medium b \<noteq> medium a then int (medium b) - int (medium a)
      else if low b \<noteq> low a then int (low b) - int (low a)
      else int (totalAlerts b) - int (totalAlerts a))"

text \<open>
  \<open>a\<close> may stand in front of \<open>b\<close> in a list sorted by \<open>compareAlerts\<close>: descending
  critical, then high, then medium, then total.
\<close>

definition severityOrder :: "alert_row \<Rightarrow> alert_row \<Rightarrow> bool" where
  "severityOrder a b =
     (critical a > critical b \<or>
      (critical a = critical b \<and>
        (high a > high b \<or>
         (high a = high b \<and>
           (medium a > medium b \<or>
            (medium a = medium b \<and> totalAlerts a \<ge> totalAlerts b))))))"

subsection \<open>Configuration and calendar\<close>

text \<open>
  The values of \<open>getConfig()\<close> that the builders read: \<open>config.thresholds.*\<close> and,
  in ArchiveCandidates.jsx and SecurityGovernanceRepo.jsx, \<open>config.displayLimits.*\<close>.
\<close>

record config =
  inactiveRepoMonths :: int
  staleBranchDays :: int
  oldPRDays :: int
  branchCountWarning :: int
  maxInactiveRepos :: int
  maxUnprotectedRepos :: int
  maxNoAdminRepos :: int

text \<open>
  The calendar arithmetic of \<open>Date\<close> is a parameter: \<open>monthsBefore d m\<close> is the date
  \<open>d\<close> after \<open>setMonth(getMonth() - m)\<close>, \<open>daysBefore d n\<close> the date \<open>d\<close> after
  \<open>setDate(getDate() - n)\<close>.
\<close>

record calendar =
  monthsBefore :: "int \<Rightarrow> int \<Rightarrow> int"
  daysBefore :: "int \<Rightarrow> int \<Rightarrow> int"

subsection \<open>The cleanup builder (CleanupNeeded.tsx)\<close>

record inactive_row =
  inactive_name :: string
  inactive_url :: string
  lastCommitDate :: int
  lastPRDate :: "int option"
  lastActivity :: int
  isLastActivityPR :: bool
  daysInactive :: int

text \<open>
  A row of the stale-branch list. The warning row has \<open>branchCount\<close> and no
  \<open>totalBranches\<close> or \<open>authors\<close>; the detailed row has no \<open>branchCount\<close>.
\<close>

record stale_row =
  repoName :: string
  repoUrl :: string
  isWarning :: bool
  branchCount :: "nat option"
  staleBranchCount :: nat
  totalBranches :: "nat option"
  authors :: "string list option"

record oldest_pr =
  daysOpen :: int
  oldest_number :: "nat option"
  oldest_url :: "string option"

record old_pr_row =
  pr_repoName :: string
  pr_repoUrl :: string
  oldPRCount :: nat
  totalPRs :: nat
  oldestPR :: oldest_pr

record cleanup_report =
  inactiveRepos :: "inactive_row list"
  totalInactive :: nat
  staleBranches :: "stale_row list"
  oldPRs :: "old_pr_row list"
  totalStaleBranchRepos :: nat
  totalOldPRRepos :: nat
  totalOldPRs :: nat

text \<open>\<open>1000 * 60 * 60 * 24\<close>\<close>

definition msPerDay :: int where
  "msPerDay = 1000 * 60 * 60 * 24"

text \<open>
  \<^verbatim>\<open>
  const pushedAt = new Date(repo.pushed_at);
  const lastPRDate = lastPR ? new Date(lastPR.updated_at) : null;
  const lastActivity = lastPRDate && lastPRDate > pushedAt ? lastPRDate : pushedAt;
  const isLastPR = lastPRDate && lastPRDate > pushedAt;
  const daysSinceActivity = Math.floor((new Date() - lastActivity) / (1000 * 60 * 60 * 24));
  if (lastActivity < inactiveCutoffDate) { reposWithActivity.push({...}); }
  \<close>
  The result is the list of rows pushed for this repository.
\<close>

definition checkInactive :: "int \<Rightarrow> int \<Rightarrow> repo \<Rightarrow> pull_request option \<Rightarrow> inactive_row list" where
  "checkInactive today inactiveCutoffDate repo lastPR =
     (let pushedAt = pushed_at repo;
          lastPRDate = map_option updated_at lastPR;
          lastActivity = (case lastPRDate of
                            Some d \<Rightarrow> if d > pushedAt then d else pushedAt
                          | None \<Rightarrow> pushedAt);
          isLastPR = (case lastPRDate of Some d \<Rightarrow> d > pushedAt | None \<Rightarrow> False);
          daysSinceActivity = (today - lastActivity) div msPerDay
      in if lastActivity < inactiveCutoffDate
         then [\<lparr> inactive_name = name repo,
                  inactive_url = html_url repo,
                  lastCommitDate = pushedAt,
                  lastPRDate = lastPRDate,
                  lastActivity = lastActivity,
                  isLastActivityPR = isLastPR,
                  daysInactive = daysSinceActivity \<rparr>]
         else [])"

text \<open>
  One turn of \<open>allBranchDetails.forEach\<close>, on the pair of \<open>staleBranchCount\<close> and the
  set \<open>authors\<close> (in insertion order):
  \<^verbatim>\<open>
  if (branchDetails && branchDetails.commit) {
    const lastCommitDate = new Date(branchDetails.commit.commit.author.date);
    if (lastCommitDate < staleBranchCutoffDate) {
      staleBranchCount++;
      const authorIdentifier =
        branchDetails.commit.author?.login || branchDetails.commit.commit.author.name;
      if (authorIdentifier) { authors.add(authorIdentifier); }
    }
  }
  \<close>
\<close>

definition checkBranch :: "int \<Rightarrow> nat \<times> string list \<Rightarrow> branch_details option \<Rightarrow> nat \<times> string list" where
  "checkBranch staleBranchCutoffDate acc branchDetails =
     (case branchDetails of
        None \<Rightarrow> acc
      | Some details \<Rightarrow>
          (case commit details of
             None \<Rightarrow> acc
           | Some c \<Rightarrow>
               if author_date c < staleBranchCutoffDate then
                 (let authorIdentifier =
                        (case author_login c of
                           Some login \<Rightarrow> if login \<noteq> [] then login else author_name c
                         | None \<Rightarrow> author_name c)
                  in (fst acc + 1,
                      if authorIdentifier \<noteq> [] \<and> authorIdentifier \<notin> set (snd acc)
                      then snd acc @ [authorIdentifier] else snd acc))
               else acc))"

text \<open>
  The stale-branch part of the loop body; the result is the rows pushed to
  \<open>reposWithStaleBranches\<close> and the branch-detail calls issued for this repository.
  \<^verbatim>\<open>
  const nonDefaultBranches = branches.filter(branch => branch.name !== repo.default_branch);
  if (nonDefaultBranches.length > branchWarningThreshold) {
    reposWithStaleBranches.push({ repoName: repo.name, repoUrl: repo.html_url,
      isWarning: true, branchCount: nonDefaultBranches.length, staleBranchCount: 0 });
  } else {
    const branchDetailsPromises = nonDefaultBranches.map(branch =>
      apiService.getBranchDetails(orgName, repo.name, branch.name));
    const allBranchDetails = await Promise.all(branchDetailsPromises);
    ...
    if (staleBranchCount > 0) {
      reposWithStaleBranches.push({ repoName: repo.name, repoUrl: repo.html_url,
        isWarning: false, staleBranchCount: staleBranchCount,
        totalBranches: nonDefaultBranches.length, authors: Array.from(authors) });
    }
  }
  \<close>
\<close>

definition checkStaleBranches ::
  "api_service \<Rightarrow> string \<Rightarrow> int \<Rightarrow> int \<Rightarrow> repo \<Rightarrow> branch list \<Rightarrow> stale_row list \<times> api_call list" where
  "checkStaleBranches api orgName branchWarningThreshold staleBranchCutoffDate repo branches =
     (let nonDefaultBranches = filter (\<lambda>b. branch_name b \<noteq> default_branch repo) branches
      in if int (length nonDefaultBranches) > branchWarningThreshold
         then ([\<lparr> repoName = name repo,
                   repoUrl = html_url repo,
                   isWarning = True,
                   branchCount = Some (length nonDefaultBranches),
                   staleBranchCount = 0,
                   totalBranches = None,
                   authors = None \<rparr>], [])
         else
           (let allBranchDetails =
                  map (\<lambda>b. api_getBranchDetails api orgName (name repo) (branch_name b))
                    nonDefaultBranches;
                detailCalls =
                  map (\<lambda>b. GetBranchDetails orgName (name repo) (branch_name b))
                    nonDefaultBranches;
                counted = foldl (checkBranch staleBranchCutoffDate) (0, []) allBranchDetails
            in (if fst counted > 0
                then [\<lparr> repoName = name repo,
                         repoUrl = html_url repo,
                         isWarning = False,
                         branchCount = None,
                         staleBranchCount = fst counted,
                         totalBranches = Some (length nonDefaultBranches),
                         authors = Some (snd counted) \<rparr>]
                else [], detailCalls)))"

text \<open>
  One turn of \<open>for (const pr of openPRs)\<close>, on the pair of \<open>oldPRCount\<close> and
  \<open>oldestPR\<close>:
  \<^verbatim>\<open>
  const createdDate = new Date(pr.created_at);
  const daysOpen = Math.floor((new Date() - createdDate) / (1000 * 60 * 60 * 24));
  if (createdDate < prCutoffDate) {
    oldPRCount++;
    if (daysOpen > oldestPR.daysOpen) {
      oldestPR.daysOpen = daysOpen; oldestPR.number = pr.number; oldestPR.url = pr.html_url;
    }
  }
  \<close>
\<close>

definition checkPR :: "int \<Rightarrow> int \<Rightarrow> nat \<times> oldest_pr \<Rightarrow> pull_request \<Rightarrow> nat \<times> oldest_pr" where
  "checkPR today prCutoffDate acc pr =
     (let createdDate = created_at pr;
          days = (today - createdDate) div msPerDay
      in if createdDate < prCutoffDate
         then (fst acc + 1,
               if days > daysOpen (snd acc)
               then \<lparr> daysOpen = days, oldest_number = Some (pr_number pr),
                      oldest_url = Some (pr_html_url pr) \<rparr>
               else snd acc)
         else acc)"

definition checkOldPRs :: "int \<Rightarrow> int \<Rightarrow> repo \<Rightarrow> pull_request list \<Rightarrow> old_pr_row list" where
  "checkOldPRs today prCutoffDate repo openPRs =
     (let counted = foldl (checkPR today prCutoffDate)
                      (0, \<lparr> daysOpen = 0, oldest_number = None, oldest_url = None \<rparr>) openPRs
      in if fst counted > 0
         then [\<lparr> pr_repoName = name repo,
                  pr_repoUrl = html_url repo,
                  oldPRCount = fst counted,
                  totalPRs = length openPRs,
                  oldestPR = snd counted \<rparr>]
         else [])"

text \<open>
  The loop over \<open>activeRepos\<close>, with the three result arrays and the calls issued so
  far. Each turn first awaits \<open>getLastPullRequest\<close>, \<open>getRepoBranches\<close> and
  \<open>getOpenPullRequests\<close> together.
\<close>

fun cleanup_loop ::
  "api_service \<Rightarrow> string \<Rightarrow> int \<Rightarrow> int \<Rightarrow> int \<Rightarrow> int \<Rightarrow> int \<Rightarrow> repo list
     \<Rightarrow> inactive_row list \<Rightarrow> stale_row list \<Rightarrow> old_pr_row list \<Rightarrow> api_call list
     \<Rightarrow> inactive_row list \<times> stale_row list \<times> old_pr_row list \<times> api_call list" where
  "cleanup_loop api orgName today inactiveCutoffDate staleBranchCutoffDate prCutoffDate
       branchWarningThreshold [] reposWithActivity reposWithStaleBranches reposWithOldPRs calls =
     (reposWithActivity, reposWithStaleBranches, reposWithOldPRs, calls)"
| "cleanup_loop api orgName today inactiveCutoffDate staleBranchCutoffDate prCutoffDate
       branchWarningThreshold (repo # rest) reposWithActivity reposWithStaleBranches
       reposWithOldPRs calls =
     (let lastPR = api_getLastPullRequest api orgName (name repo);
          branches = api_getRepoBranches api orgName (name repo);
          openPRs = api_getOpenPullRequests api orgName (name repo);
          stale = checkStaleBranches api orgName branchWarningThreshold staleBranchCutoffDate
                    repo branches
      in cleanup_loop api orgName today inactiveCutoffDate staleBranchCutoffDate prCutoffDate
           branchWarningThreshold rest
           (reposWithActivity @ checkInactive today inactiveCutoffDate repo lastPR)
           (reposWithStaleBranches @ fst stale)
           (reposWithOldPRs @ checkOldPRs today prCutoffDate repo openPRs)
           (calls @ [GetLastPullRequest orgName (name repo), GetRepoBranches orgName (name repo),
                     GetOpenPullRequests orgName (name repo)] @ snd stale))"

text \<open>\<^verbatim>\<open>reposWithActivity.sort((a, b) => b.daysInactive - a.daysInactive);\<close>\<close>

definition compareInactive :: "inactive_row \<Rightarrow> inactive_row \<Rightarrow> int" where
  "compareInactive a b = daysInactive b - daysInactive a"

text \<open>
  \<^verbatim>\<open>
  reposWithStaleBranches.sort((a, b) => {
    if (a.isWarning && !b.isWarning) return -1;
    if (!a.isWarning && b.isWarning) return 1;
    if (a.isWarning && b.isWarning) return b.branchCount - a.branchCount;
    return b.staleBranchCount - a.staleBranchCount;
  });
  \<close>
  A difference with a missing \<open>branchCount\<close> is NaN, which \<open>sort\<close> reads as 0.
\<close>

definition compareStale :: "stale_row \<Rightarrow> stale_row \<Rightarrow> int" where
  "compareStale a b =
     (if isWarning a \<and> \<not> isWarning b then - 1
      else if \<not> isWarning a \<and> isWarning b then 1
      else if isWarning a \<and> isWarning b then
        (case (branchCount b, branchCount a) of
           (Some m, Some n) \<Rightarrow> int m - int n
         | _ \<Rightarrow> 0)
      else int (staleBranchCount b) - int (staleBranchCount a))"

text \<open>\<^verbatim>\<open>reposWithOldPRs.sort((a, b) => b.oldestPR.daysOpen - a.oldestPR.daysOpen);\<close>\<close>

definition compareOldPRs :: "old_pr_row \<Rightarrow> old_pr_row \<Rightarrow> int" where
  "compareOldPRs a b = daysOpen (oldestPR b) - daysOpen (oldestPR a)"

text \<open>
  The \<open>try\<close> block of \<open>fetchData\<close> on a cache miss, up to the object handed to
  \<open>saveToCache\<close>: the three arrays are sorted and stored whole, next to their lengths.
  \<open>today\<close> is the value of \<open>new Date()\<close>, read once for the whole build.
\<close>

definition cleanup_fetchData ::
  "api_service \<Rightarrow> config \<Rightarrow> calendar \<Rightarrow> int \<Rightarrow> string \<Rightarrow> js_error + (cleanup_report \<times> api_call list)" where
  "cleanup_fetchData api cfg cal today orgName =
     (case api_getOrgRepositories api orgName of
        Inl err \<Rightarrow> Inl err
      | Inr repos \<Rightarrow>
          (let inactiveCutoffDate = monthsBefore cal today (inactiveRepoMonths cfg);
               staleBranchCutoffDate = daysBefore cal today (staleBranchDays cfg);
               prCutoffDate = daysBefore cal today (oldPRDays cfg)
           in case cleanup_loop api orgName today inactiveCutoffDate staleBranchCutoffDate
                     prCutoffDate (branchCountWarning cfg) (activeRepos repos) [] [] []
                     [GetOrgRepositories orgName] of
                (reposWithActivity, reposWithStaleBranches, reposWithOldPRs, calls) \<Rightarrow>
                  (let sortedActivity = array_sort compareInactive reposWithActivity;
                       sortedStale = array_sort compareStale reposWithStaleBranches;
                       sortedOldPRs = array_sort compareOldPRs reposWithOldPRs;
                       totalOldPRCount = foldl (\<lambda>sum row. sum + oldPRCount row) 0 sortedOldPRs
                   in Inr (\<lparr> inactiveRepos = sortedActivity,
                              totalInactive = length sortedActivity,
                              staleBranches = sortedStale,
                              oldPRs = sortedOldPRs,
                              totalStaleBranchRepos = length sortedStale,
                              totalOldPRRepos = length sortedOldPRs,
                              totalOldPRs = totalOldPRCount \<rparr>, calls))))"

subsection \<open>The repository-security builder (SecurityGovernanceRepo.jsx)\<close>

record unprotected_row =
  unprotected_name :: string
  unprotected_url :: string
  defaultBranch :: string
  unprotected_visibility :: string
  unprotected_settingsUrl :: string

record no_admin_row =
  no_admin_name :: string
  no_admin_url :: string
  collaboratorCount :: nat
  no_admin_visibility :: string
  no_admin_settingsUrl :: string

record security_repo_report =
  unprotectedRepos :: "unprotected_row list"
  noAdminRepos :: "no_admin_row list"
  totalUnprotected :: nat
  totalNoAdmin :: nat

text \<open>
  The loop over \<open>activeRepos\<close>, with the arrays \<open>unprotected\<close> and \<open>noAdmin\<close>:
  \<^verbatim>\<open>
  const [isProtected, teams, directCollaborators] = await Promise.all([
    apiService.isBranchProtected(orgName, repo.name, repo.default_branch).catch(() => false),
    apiService.getRepoTeams(orgName, repo.name).catch(() => []),
    apiService.getRepoDirectCollaborators(orgName, repo.name).catch(() => [])
  ]);
  if (!isProtected) { unprotected.push({...}); }
  const adminTeams = teams.filter(team => team.permission === 'admin');
  const adminCollaborators = directCollaborators.filter(collab =>
    collab.permissions && collab.permissions.admin === true);
  const totalExplicitAdmins = adminTeams.length + adminCollaborators.length;
  if (totalExplicitAdmins === 0) { noAdmin.push({...}); }
  \<close>
\<close>

fun securityRepo_loop ::
  "api_service \<Rightarrow> string \<Rightarrow> repo list \<Rightarrow> unprotected_row list \<Rightarrow> no_admin_row list
     \<Rightarrow> api_call list \<Rightarrow> unprotected_row list \<times> no_admin_row list \<times> api_call list" where
  "securityRepo_loop api orgName [] unprotected noAdmin calls = (unprotected, noAdmin, calls)"
| "securityRepo_loop api orgName (repo # rest) unprotected noAdmin calls =
     (let isProtected =
            (case api_isBranchProtected api orgName (name repo) (default_branch repo) of
               Inr b \<Rightarrow> b | Inl e \<Rightarrow> False);
          teams = (case api_getRepoTeams api orgName (name repo) of
                     Inr ts \<Rightarrow> ts | Inl e \<Rightarrow> []);
          directCollaborators =
            (case api_getRepoDirectCollaborators api orgName (name repo) of
               Inr cs \<Rightarrow> cs | Inl e \<Rightarrow> []);
          adminTeams = filter (\<lambda>team. permission team = ''admin'') teams;
          adminCollaborators = filter (\<lambda>collab. admin collab = Some True) directCollaborators;
          totalExplicitAdmins = length adminTeams + length adminCollaborators
      in securityRepo_loop api orgName rest
           (if \<not> isProtected
            then unprotected @
                   [\<lparr> unprotected_name = name repo,
                      unprotected_url = html_url repo,
                      defaultBranch = default_branch repo,
                      unprotected_visibility = visibility repo,
                      unprotected_settingsUrl = html_url repo @ ''/settings/branches'' \<rparr>]
            else unprotected)
           (if totalExplicitAdmins = 0
            then noAdmin @
                   [\<lparr> no_admin_name = name repo,
                      no_admin_url = html_url repo,
                      collaboratorCount = length directCollaborators,
                      no_admin_visibility = visibility repo,
                      no_admin_settingsUrl = html_url repo @ ''/settings/access'' \<rparr>]
            else noAdmin)
           (calls @ [IsBranchProtected orgName (name repo) (default_branch repo),
                     GetRepoTeams orgName (name repo),
                     GetRepoDirectCollaborators orgName (name repo)]))"

text \<open>
  \<^verbatim>\<open>
  const totalUnprotected = unprotected.length;
  const unprotectedRepos = unprotected.slice(0, config.displayLimits.maxUnprotectedRepos);
  const totalNoAdmin = noAdmin.length;
  const noAdminRepos = noAdmin.slice(0, config.displayLimits.maxNoAdminRepos);
  \<close>
\<close>

definition securityRepo_fetchData ::
  "api_service \<Rightarrow> config \<Rightarrow> string \<Rightarrow> js_error + (security_repo_report \<times> api_call list)" where
  "securityRepo_fetchData api cfg orgName =
     (case api_getOrgRepositories api orgName of
        Inl err \<Rightarrow> Inl err
      | Inr repos \<Rightarrow>
          (case securityRepo_loop api orgName (activeRepos repos) [] []
                  [GetOrgRepositories orgName] of
             (unprotected, noAdmin, calls) \<Rightarrow>
               Inr (\<lparr> unprotectedRepos = slice0 (maxUnprotectedRepos cfg) unprotected,
                      noAdminRepos = slice0 (maxNoAdminRepos cfg) noAdmin,
                      totalUnprotected = length unprotected,
                      totalNoAdmin = length noAdmin \<rparr>, calls)))"

subsection \<open>The archive builder (ArchiveCandidates.jsx)\<close>

record archive_report =
  archive_inactiveRepos :: "inactive_row list"
  archive_totalInactive :: nat

text \<open>
  The loop over \<open>activeRepos\<close>: each turn awaits \<open>getLastPullRequest\<close> and runs the
  same activity check as the cleanup builder.
\<close>

fun archive_loop ::
  "api_service \<Rightarrow> string \<Rightarrow> int \<Rightarrow> int \<Rightarrow> repo list \<Rightarrow> inactive_row list \<Rightarrow> api_call list
     \<Rightarrow> inactive_row list \<times> api_call list" where
  "archive_loop api orgName today cutoffDate [] reposWithActivity calls =
     (reposWithActivity, calls)"
| "archive_loop api orgName today cutoffDate (repo # rest) reposWithActivity calls =
     (let lastPR = api_getLastPullRequest api orgName (name repo)
      in archive_loop api orgName today cutoffDate rest
           (reposWithActivity @ checkInactive today cutoffDate repo lastPR)
           (calls @ [GetLastPullRequest orgName (name repo)]))"

text \<open>
  \<^verbatim>\<open>
  reposWithActivity.sort((a, b) => b.daysInactive - a.daysInactive);
  const totalInactive = reposWithActivity.length;
  const inactiveRepos = reposWithActivity.slice(0, config.displayLimits.maxInactiveRepos);
  \<close>
\<close>

definition archive_fetchData ::
  "api_service \<Rightarrow> config \<Rightarrow> calendar \<Rightarrow> int \<Rightarrow> string \<Rightarrow> js_error + (archive_report \<times> api_call list)" where
  "archive_fetchData api cfg cal today orgName =
     (case api_getOrgRepositories api orgName of
        Inl err \<Rightarrow> Inl err
      | Inr repos \<Rightarrow>
          (let cutoffDate = monthsBefore cal today (inactiveRepoMonths cfg)
           in case archive_loop api orgName today cutoffDate (activeRepos repos) []
                     [GetOrgRepositories orgName] of
                (reposWithActivity, calls) \<Rightarrow>
                  (let sortedActivity = array_sort compareInactive reposWithActivity
                   in Inr (\<lparr> archive_inactiveRepos = slice0 (maxInactiveRepos cfg) sortedActivity,
                              archive_totalInactive = length sortedActivity \<rparr>, calls))))"

subsection \<open>Builders that iterate other sets of repositories\<close>







subsection \<open>The rows of one repository\<close>

text \<open>
  What one turn of a loop contributes, for stating which rows a report is made of. In
  the repository-security builder: the three awaited values, the two conditions and the
  two rows.
\<close>

definition repoIsProtected :: "api_service \<Rightarrow> string \<Rightarrow> repo \<Rightarrow> bool" where
  "repoIsProtected api orgName repo =
     (case api_isBranchProtected api orgName (name repo) (default_branch repo) of
        Inr b \<Rightarrow> b | Inl e \<Rightarrow> False)"

definition repoTeams :: "api_service \<Rightarrow> string \<Rightarrow> repo \<Rightarrow> team list" where
  "repoTeams api orgName repo =
     (case api_getRepoTeams api orgName (name repo) of Inr ts \<Rightarrow> ts | Inl e \<Rightarrow> [])"

definition repoDirectCollaborators :: "api_service \<Rightarrow> string \<Rightarrow> repo \<Rightarrow> collaborator list" where
  "repoDirectCollaborators api orgName repo =
     (case api_getRepoDirectCollaborators api orgName (name repo) of
        Inr cs \<Rightarrow> cs | Inl e \<Rightarrow> [])"

definition totalExplicitAdmins :: "api_service \<Rightarrow> string \<Rightarrow> repo \<Rightarrow> nat" where
  "totalExplicitAdmins api orgName repo =
     length (filter (\<lambda>team. permission team = ''admin'') (repoTeams api orgName repo)) +
     length (filter (\<lambda>collab. admin collab = Some True) (repoDirectCollaborators api orgName repo))"

definition unprotectedRow :: "repo \<Rightarrow> unprotected_row" where
  "unprotectedRow repo =
     \<lparr> unprotected_name = name repo,
       unprotected_url = html_url repo,
       defaultBranch = default_branch repo,
       unprotected_visibility = visibility repo,
       unprotected_settingsUrl = html_url repo @ ''/settings/branches'' \<rparr>"

definition noAdminRow :: "api_service \<Rightarrow> string \<Rightarrow> repo \<Rightarrow> no_admin_row" where
  "noAdminRow api orgName repo =
     \<lparr> no_admin_name = name repo,
       no_admin_url = html_url repo,
       collaboratorCount = length (repoDirectCollaborators api orgName repo),
       no_admin_visibility = visibility repo,
       no_admin_settingsUrl = html_url repo @ ''/settings/access'' \<rparr>"

text \<open>In the alert builder: the rows pushed to \<open>withAlerts\<close> for one repository.\<close>

definition repoAlertRows :: "api_service \<Rightarrow> string \<Rightarrow> repo \<Rightarrow> alert_row list" where
  "repoAlertRows api orgName repo =
     (if (case api_isDependabotEnabled api orgName (name repo) of Inr b \<Rightarrow> b | Inl e \<Rightarrow> True)
      then (let dependabotAlerts =
                  (case api_getDependabotAlerts api orgName (name repo) ''open'' of
                     Inr alerts \<Rightarrow> alerts | Inl e \<Rightarrow> [])
            in if length dependabotAlerts > 0 then [alertRow repo dependabotAlerts] else [])
      else [])"

text \<open>
  The orders of the sorted lists: most days inactive first; warning rows in front of
  detailed rows, warnings by descending branch count and detailed rows by descending
  stale-branch count; oldest open pull request first.
\<close>

definition inactiveOrder :: "inactive_row \<Rightarrow> inactive_row \<Rightarrow> bool" where
  "inactiveOrder a b = (daysInactive b \<le> daysInactive a)"

definition staleOrder :: "stale_row \<Rightarrow> stale_row \<Rightarrow> bool" where
  "staleOrder a b =
     (if isWarning a then
        (if isWarning b then
           (case (branchCount a, branchCount b) of
              (Some m, Some n) \<Rightarrow> n \<le> m
            | _ \<Rightarrow> True)
         else True)
      else (\<not> isWarning b \<and> staleBranchCount b \<le> staleBranchCount a))"

definition oldPRsOrder :: "old_pr_row \<Rightarrow> old_pr_row \<Rightarrow> bool" where
  "oldPRsOrder a b = (daysOpen (oldestPR b) \<le> daysOpen (oldestPR a))"

text \<open>
  The rows pushed over the whole loop, one repository of the active set after the other:
  inactive repositories (cleanup and archive builders, which compute the same cutoff),
  stale-branch rows and old-pull-request rows (cleanup builder).
\<close>

definition inactiveRows ::
  "api_service \<Rightarrow> config \<Rightarrow> calendar \<Rightarrow> int \<Rightarrow> string \<Rightarrow> repo list \<Rightarrow> inactive_row list" where
  "inactiveRows api cfg cal today orgName repos =
     concat (map (\<lambda>repo. checkInactive today (monthsBefore cal today (inactiveRepoMonths cfg))
                            repo (api_getLastPullRequest api orgName (name repo)))
               (activeRepos repos))"

definition staleRows ::
  "api_service \<Rightarrow> config \<Rightarrow> calendar \<Rightarrow> int \<Rightarrow> string \<Rightarrow> repo list \<Rightarrow> stale_row list" where
  "staleRows api cfg cal today orgName repos =
     concat (map (\<lambda>repo. fst (checkStaleBranches api orgName (branchCountWarning cfg)
                                 (daysBefore cal today (staleBranchDays cfg)) repo
                                 (api_getRepoBranches api orgName (name repo))))
               (activeRepos repos))"

definition oldPRRows ::
  "api_service \<Rightarrow> config \<Rightarrow> calendar \<Rightarrow> int \<Rightarrow> string \<Rightarrow> repo list \<Rightarrow> old_pr_row list" where
  "oldPRRows api cfg cal today orgName repos =
     concat (map (\<lambda>repo. checkOldPRs today (daysBefore cal today (oldPRDays cfg)) repo
                            (api_getOpenPullRequests api orgName (name repo)))
               (activeRepos repos))"

subsection \<open>Reading the call log\<close>

text \<open>The branches for which a log holds a branch-detail call of a given repository.\<close>

fun detailBranch :: "string \<Rightarrow> string \<Rightarrow> api_call \<Rightarrow> string option" where
  "detailBranch orgName r (GetBranchDetails org r' b) =
     (if org = orgName \<and> r' = r then Some b else None)"
| "detailBranch orgName r _ = None"

definition branchDetailCalls :: "string \<Rightarrow> string \<Rightarrow> api_call list \<Rightarrow> string list" where
  "branchDetailCalls orgName r calls = List.map_filter (detailBranch orgName r) calls"

section \<open>Sample data\<close>

text \<open>
  Concrete inputs on which the model is evaluated: a payload, the text of its cache
  entry written at time 1000 with a TTL of one hour, a settings text, the body of a
  branch-protection response, and a store holding a foreign entry, a live cache entry, a
  truncated (unparseable) cache entry and the settings entry of \<open>config.ts\<close>, whose key
  \<open>github-org-analyser-settings\<close> also starts with the cache prefix.
\<close>

definition sample_payload :: json where
  "sample_payload = JArr [JNum 1, JNum 2]"

definition sample_text :: string where
  \<open>sample_text = ''{"data":[1,2],"timestamp":1000,"expiresAt":3601000}''\<close>

definition sample_settings_text :: string where
  \<open>sample_settings_text = ''{"cache":{"ttlHours":1}}''\<close>

definition sample_protection_text :: string where
  \<open>sample_protection_text = ''{"enforce_admins":{"enabled":true}}''\<close>

definition sample_runtime :: js_runtime where
  "sample_runtime = table_runtime
     [(sample_text, cacheEntry sample_payload 1000 1),
      (sample_settings_text, JObj [(''cache'', JObj [(''ttlHours'', JNum 1)])]),
      (sample_protection_text, JObj [(''enforce_admins'', JObj [(''enabled'', JBool True)])])]"

definition sample_store :: storage where
  \<open>sample_store =
     \<lparr> items = [(''theme'', ''dark''),
                (getCacheKey ''acme'' ''cleanup'', sample_text),
                (getCacheKey ''acme'' ''security'', ''{"data":''),
                (''github-org-analyser-settings'', sample_settings_text)],
       quota = 5000000 \<rparr>\<close>

text \<open>
  A second runtime, whose table also holds the text of the entry of a longer payload
  written at time 2000, and a store that is full: its capacity is what its only entry,
  the live cache entry of \<open>sample_payload\<close>, takes.
\<close>

definition sample_wide_payload :: json where
  "sample_wide_payload = JArr [JNum 1, JNum 2, JNum 3]"

definition sample_wide_text :: string where
  \<open>sample_wide_text = ''{"data":[1,2,3],"timestamp":2000,"expiresAt":3602000}''\<close>

definition sample_wide_runtime :: js_runtime where
  "sample_wide_runtime = table_runtime
     [(sample_text, cacheEntry sample_payload 1000 1),
      (sample_wide_text, cacheEntry sample_wide_payload 2000 1)]"

definition sample_full_store :: storage where
  "sample_full_store =
     \<lparr> items = [(getCacheKey ''acme'' ''cleanup'', sample_text)],
       quota = length (getCacheKey ''acme'' ''cleanup'') + length sample_text \<rparr>"

text \<open>
  An organisation with six repositories, one archived and one a fork. \<open>web\<close> has three
  branches beside its default branch, \<open>api\<close> and \<open>docs\<close> one each, all last committed
  to at time 0; \<open>web\<close> has two alerts of a severity outside the four tiers, \<open>api\<close>
  one of low severity. Every display limit is 2 and the branch warning threshold is 2.
\<close>

definition sample_web :: repo where
  "sample_web = \<lparr> name = ''web'', html_url = ''https://github.com/acme/web'', archived = False,
     fork = False, is_private = False, default_branch = ''main'', pushed_at = 0 \<rparr>"

definition sample_attic :: repo where
  "sample_attic = \<lparr> name = ''attic'', html_url = ''https://github.com/acme/attic'', archived = True,
     fork = False, is_private = False, default_branch = ''main'', pushed_at = 0 \<rparr>"

definition sample_api :: repo where
  "sample_api = \<lparr> name = ''api'', html_url = ''https://github.com/acme/api'', archived = False,
     fork = False, is_private = True, default_branch = ''main'', pushed_at = 0 \<rparr>"

definition sample_mirror :: repo where
  "sample_mirror = \<lparr> name = ''mirror'', html_url = ''https://github.com/acme/mirror'', archived = False,
     fork = True, is_private = False, default_branch = ''main'', pushed_at = 0 \<rparr>"

definition sample_docs :: repo where
  "sample_docs = \<lparr> name = ''docs'', html_url = ''https://github.com/acme/docs'', archived = False,
     fork = False, is_private = False, default_branch = ''main'', pushed_at = 0 \<rparr>"

definition sample_cli :: repo where
  "sample_cli = \<lparr> name = ''cli'', html_url = ''https://github.com/acme/cli'', archived = False,
     fork = False, is_private = False, default_branch = ''main'', pushed_at = 0 \<rparr>"

definition sample_repos :: "repo list" where
  "sample_repos = [sample_web, sample_attic, sample_api, sample_mirror, sample_docs, sample_cli]"

definition sample_service :: api_service where
  "sample_service =
     \<lparr> api_getOrgRepositories =
         (\<lambda>org. if org = ''acme'' then Inr sample_repos else Inl (GitHubApiError 404)),
       api_getLastPullRequest = (\<lambda>org r. None),
       api_getRepoBranches =
         (\<lambda>org r. if r = ''web''
                   then [\<lparr>branch_name = ''main''\<rparr>, \<lparr>branch_name = ''feat-1''\<rparr>,
                         \<lparr>branch_name = ''feat-2''\<rparr>, \<lparr>branch_name = ''feat-3''\<rparr>]
                   else if r = ''api'' then [\<lparr>branch_name = ''main''\<rparr>, \<lparr>branch_name = ''old''\<rparr>]
                   else if r = ''docs'' then [\<lparr>branch_name = ''main''\<rparr>, \<lparr>branch_name = ''legacy''\<rparr>]
                   else [\<lparr>branch_name = ''main''\<rparr>]),
       api_getOpenPullRequests = (\<lambda>org r. []),
       api_getBranchDetails =
         (\<lambda>org r b. Some \<lparr>commit = Some \<lparr>author_date = 0, author_login = Some ''alice'',
                                             author_name = ''Alice''\<rparr>\<rparr>),
       api_isBranchProtected =
         (\<lambda>org r b. if r = ''web'' then Inr True
                     else if r = ''api'' then Inr False else Inl (GitHubApiError 403)),
       api_getRepoTeams =
         (\<lambda>org r. Inr (if r = ''web'' then [\<lparr>permission = ''admin''\<rparr>] else [])),
       api_getRepoDirectCollaborators = (\<lambda>org r. Inr []),
       api_isDependabotEnabled =
         (\<lambda>org r. if r = ''cli'' then Inl TypeError else Inr (r \<noteq> ''docs'')),
       api_getDependabotAlerts =
         (\<lambda>org r state.
            if r = ''web''
            then Inr [\<lparr>advisory_severity = Some ''moderate'', vulnerability_severity = None\<rparr>,
                      \<lparr>advisory_severity = Some ''moderate'', vulnerability_severity = None\<rparr>]
            else if r = ''api''
            then Inr [\<lparr>advisory_severity = None, vulnerability_severity = Some ''low''\<rparr>]
            else Inl (GitHubApiError 404)) \<rparr>"



definition sample_config :: config where
  "sample_config = \<lparr> inactiveRepoMonths = 12, staleBranchDays = 90, oldPRDays = 60,
     branchCountWarning = 2, maxInactiveRepos = 2,
     maxUnprotectedRepos = 2, maxNoAdminRepos = 2 \<rparr>"

definition sample_calendar :: calendar where
  "sample_calendar = \<lparr> monthsBefore = (\<lambda>d m. d - m * 30 * msPerDay),
                        daysBefore = (\<lambda>d n. d - n * msPerDay) \<rparr>"

definition sample_today :: int where
  "sample_today = 100 * msPerDay"

definition sample_web_alerts :: alert_row where
  "sample_web_alerts = \<lparr> alert_name = ''web'', alert_url = ''https://github.com/acme/web'',
     alertsUrl = ''https://github.com/acme/web/security/dependabot'', alert_visibility = ''public'',
     totalAlerts = 2, critical = 0, high = 0, medium = 0, low = 0 \<rparr>"

definition sample_api_alerts :: alert_row where
  "sample_api_alerts = \<lparr> alert_name = ''api'', alert_url = ''https://github.com/acme/api'',
     alertsUrl = ''https://github.com/acme/api/security/dependabot'', alert_visibility = ''private'',
     totalAlerts = 1, critical = 0, high = 0, medium = 0, low = 1 \<rparr>"

text \<open>
  What the builders return for the sample organisation: the cleanup report at
  \<open>sample_today\<close> (100 days after time 0, so every branch is stale and no repository
  is inactive yet), the repository-security report, the alert report, and the archive
  report at \<open>sample_later\<close> (1000 days after time 0, so every active repository is
  inactive), each with the calls in the order they are issued. \<open>example_row\<close> builds
  an alert row from its critical and high counts.
\<close>

definition sample_stale_rows :: "stale_row list" where
  "sample_stale_rows =
     [\<lparr> repoName = ''web'', repoUrl = ''https://github.com/acme/web'', isWarning = True,
        branchCount = Some 3, staleBranchCount = 0, totalBranches = None, authors = None \<rparr>,
      \<lparr> repoName = ''api'', repoUrl = ''https://github.com/acme/api'', isWarning = False,
        branchCount = None, staleBranchCount = 1, totalBranches = Some 1,
        authors = Some [''alice''] \<rparr>,
      \<lparr> repoName = ''docs'', repoUrl = ''https://github.com/acme/docs'', isWarning = False,
        branchCount = None, staleBranchCount = 1, totalBranches = Some 1,
        authors = Some [''alice''] \<rparr>]"

definition sample_cleanup_report :: cleanup_report where
  "sample_cleanup_report =
     \<lparr> inactiveRepos = [], totalInactive = 0, staleBranches = sample_stale_rows, oldPRs = [],
       totalStaleBranchRepos = 3, totalOldPRRepos = 0, totalOldPRs = 0 \<rparr>"

definition sample_cleanup_calls :: "api_call list" where
  "sample_cleanup_calls =
     [GetOrgRepositories ''acme'',
      GetLastPullRequest ''acme'' ''web'', GetRepoBranches ''acme'' ''web'',
      GetOpenPullRequests ''acme'' ''web'',
      GetLastPullRequest ''acme'' ''api'', GetRepoBranches ''acme'' ''api'',
      GetOpenPullRequests ''acme'' ''api'', GetBranchDetails ''acme'' ''api'' ''old'',
      GetLastPullRequest ''acme'' ''docs'', GetRepoBranches ''acme'' ''docs'',
      GetOpenPullRequests ''acme'' ''docs'', GetBranchDetails ''acme'' ''docs'' ''legacy'',
      GetLastPullRequest ''acme'' ''cli'', GetRepoBranches ''acme'' ''cli'',
      GetOpenPullRequests ''acme'' ''cli'']"

definition sample_unprotected :: "unprotected_row list" where
  "sample_unprotected =
     [\<lparr> unprotected_name = ''api'', unprotected_url = ''https://github.com/acme/api'',
        defaultBranch = ''main'', unprotected_visibility = ''private'',
        unprotected_settingsUrl = ''https://github.com/acme/api/settings/branches'' \<rparr>,
      \<lparr> unprotected_name = ''docs'', unprotected_url = ''https://github.com/acme/docs'',
        defaultBranch = ''main'', unprotected_visibility = ''public'',
        unprotected_settingsUrl = ''https://github.com/acme/docs/settings/branches'' \<rparr>,
      \<lparr> unprotected_name = ''cli'', unprotected_url = ''https://github.com/acme/cli'',
        defaultBranch = ''main'', unprotected_visibility = ''public'',
        unprotected_settingsUrl = ''https://github.com/acme/cli/settings/branches'' \<rparr>]"

definition sample_noAdmin :: "no_admin_row list" where
  "sample_noAdmin =
     [\<lparr> no_admin_name = ''api'', no_admin_url = ''https://github.com/acme/api'',
        collaboratorCount = 0, no_admin_visibility = ''private'',
        no_admin_settingsUrl = ''https://github.com/acme/api/settings/access'' \<rparr>,
      \<lparr> no_admin_name = ''docs'', no_admin_url = ''https://github.com/acme/docs'',
        collaboratorCount = 0, no_admin_visibility = ''public'',
        no_admin_settingsUrl = ''https://github.com/acme/docs/settings/access'' \<rparr>,
      \<lparr> no_admin_name = ''cli'', no_admin_url = ''https://github.com/acme/cli'',
        collaboratorCount = 0, no_admin_visibility = ''public'',
        no_admin_settingsUrl = ''https://github.com/acme/cli/settings/access'' \<rparr>]"

definition sample_securityRepo_report :: security_repo_report where
  "sample_securityRepo_report =
     \<lparr> unprotectedRepos = take 2 sample_unprotected, noAdminRepos = take 2 sample_noAdmin,
       totalUnprotected = 3, totalNoAdmin = 3 \<rparr>"

definition sample_securityRepo_calls :: "api_call list" where
  "sample_securityRepo_calls =
     [GetOrgRepositories ''acme'',
      IsBranchProtected ''acme'' ''web'' ''main'', GetRepoTeams ''acme'' ''web'',
      GetRepoDirectCollaborators ''acme'' ''web'',
      IsBranchProtected ''acme'' ''api'' ''main'', GetRepoTeams ''acme'' ''api'',
      GetRepoDirectCollaborators ''acme'' ''api'',
      IsBranchProtected ''acme'' ''docs'' ''main'', GetRepoTeams ''acme'' ''docs'',
      GetRepoDirectCollaborators ''acme'' ''docs'',
      IsBranchProtected ''acme'' ''cli'' ''main'', GetRepoTeams ''acme'' ''cli'',
      GetRepoDirectCollaborators ''acme'' ''cli'']"

definition sample_security_report :: security_report where
  "sample_security_report =
     \<lparr> reposWithAlerts = [sample_web_alerts, sample_api_alerts],
       dependabotDisabledRepos = [disabledRow sample_docs] \<rparr>"

definition sample_security_calls :: "api_call list" where
  "sample_security_calls =
     [GetOrgRepositories ''acme'',
       IsDependabotEnabled ''acme'' ''web'', GetDependabotAlerts ''acme'' ''web'' ''open'',
       IsDependabotEnabled ''acme'' ''api'', GetDependabotAlerts ''acme'' ''api'' ''open'',
       IsDependabotEnabled ''acme'' ''docs'',
       IsDependabotEnabled ''acme'' ''cli'', GetDependabotAlerts ''acme'' ''cli'' ''open'']"

definition sample_later :: int where
  "sample_later = 1000 * msPerDay"

definition sample_inactive :: "repo \<Rightarrow> inactive_row" where
  "sample_inactive repo =
     \<lparr> inactive_name = name repo, inactive_url = html_url repo, lastCommitDate = 0,
       lastPRDate = None, lastActivity = 0, isLastActivityPR = False, daysInactive = 1000 \<rparr>"

definition sample_archive_report :: archive_report where
  "sample_archive_report =
     \<lparr> archive_inactiveRepos = [sample_inactive sample_web, sample_inactive sample_api],
       archive_totalInactive = 4 \<rparr>"

definition sample_archive_calls :: "api_call list" where
  "sample_archive_calls =
     [GetOrgRepositories ''acme'',
      GetLastPullRequest ''acme'' ''web'', GetLastPullRequest ''acme'' ''api'',
      GetLastPullRequest ''acme'' ''docs'', GetLastPullRequest ''acme'' ''cli'']"

definition example_row :: "string \<Rightarrow> nat \<Rightarrow> nat \<Rightarrow> alert_row" where
  "example_row n c h =
     \<lparr> alert_name = n, alert_url = ''https://github.com/acme/'' @ n,
       alertsUrl = ''https://github.com/acme/'' @ n @ ''/security/dependabot'',
       alert_visibility = ''public'', totalAlerts = c + h, critical = c, high = h,
       medium = 0, low = 0 \<rparr>"

section \<open>Properties of the cache key\<close>

lemma split_at_first_dash:
  assumes "dashFree a" and "dashFree b" and "a @ CHR ''-'' # x = b @ CHR ''-'' # y"
  shows "a = b \<and> x = y"
proof -
  have ta: "takeWhile (\<lambda>c. c \<noteq> CHR ''-'') (a @ CHR ''-'' # x) = a"
    using assms(1) by (subst takeWhile_append2) (auto simp: dashFree_def)
  have tb: "takeWhile (\<lambda>c. c \<noteq> CHR ''-'') (b @ CHR ''-'' # y) = b"
    using assms(2) by (subst takeWhile_append2) (auto simp: dashFree_def)
  from ta tb assms(3) have "a = b" by simp
  with assms(3) show ?thesis by simp
qed

lemma split_at_last_dash:
  assumes "dashFree x" and "dashFree y" and "a @ CHR ''-'' # x = b @ CHR ''-'' # y"
  shows "a = b \<and> x = y"
proof -
  have "rev (a @ CHR ''-'' # x) = rev (b @ CHR ''-'' # y)"
    using assms(3) by simp
  then have "rev x @ CHR ''-'' # rev a = rev y @ CHR ''-'' # rev b"
    by simp
  moreover have "dashFree (rev x)" "dashFree (rev y)"
    using assms(1,2) by (simp_all add: dashFree_def)
  ultimately have "rev x = rev y \<and> rev a = rev b"
    by (rule split_at_first_dash [rotated 2])
  then show ?thesis by simp
qed

lemma split_reportTypes:
  assumes "t1 \<in> set reportTypes" and "t2 \<in> set reportTypes"
    and "a @ CHR ''-'' # t1 = b @ CHR ''-'' # t2"
  shows "a = b \<and> t1 = t2"
proof -
  have "rev (a @ CHR ''-'' # t1) = rev (b @ CHR ''-'' # t2)"
    using assms(3) by simp
  then have r: "rev t1 @ CHR ''-'' # rev a = rev t2 @ CHR ''-'' # rev b"
    by simp
  have "t1 \<in> set reportTypes \<longrightarrow> t2 \<in> set reportTypes \<longrightarrow>
          rev t1 @ CHR ''-'' # rev a = rev t2 @ CHR ''-'' # rev b \<longrightarrow> t1 = t2"
    unfolding reportTypes_def set_simps insert_iff empty_iff
    by (intro impI, elim disjE; simp)
  with assms(1,2) r have "t1 = t2" by blast
  with assms(3) show ?thesis by simp
qed

lemma getCacheKey_eq_iff:
  "getCacheKey o1 t1 = getCacheKey o2 t2 \<longleftrightarrow> o1 @ CHR ''-'' # t1 = o2 @ CHR ''-'' # t2"
  by (simp add: getCacheKey_def)

text \<open>
  Claim C1, as stated: two distinct pairs never share a key. It fails: the separator
  may occur inside either component, so \<open>(acme-security, repo)\<close> and
  \<open>(acme, security-repo)\<close> are distinct pairs with the same key
  \<open>github-org-analyser-acme-security-repo\<close>.
\<close>

theorem getCacheKey_collision:
  "(''acme-security'', ''repo'') \<noteq> (''acme'', ''security-repo'') \<and>
   getCacheKey ''acme-security'' ''repo'' = getCacheKey ''acme'' ''security-repo''"
  by (simp add: getCacheKey_def)

text \<open>
  Claim C1, amended: the key is a function of the pair (the same pair always gives the
  same key), and two distinct pairs have different keys whenever the split point is
  unambiguous: both report types are among the nine the program uses, or both
  organisation names are free of \<open>-\<close>, or both report types are free of \<open>-\<close>, or
  the two pairs agree in one component.
\<close>

theorem getCacheKey_injective_unambiguous:
  assumes "(o1, t1) \<noteq> (o2, t2)"
    and "(t1 \<in> set reportTypes \<and> t2 \<in> set reportTypes) \<or>
         (dashFree o1 \<and> dashFree o2) \<or> (dashFree t1 \<and> dashFree t2) \<or> o1 = o2 \<or> t1 = t2"
  shows "getCacheKey o1 t1 \<noteq> getCacheKey o2 t2"
proof
  assume "getCacheKey o1 t1 = getCacheKey o2 t2"
  then have eq: "o1 @ CHR ''-'' # t1 = o2 @ CHR ''-'' # t2"
    by (simp add: getCacheKey_eq_iff)
  from assms(2) consider
    (used) "t1 \<in> set reportTypes" "t2 \<in> set reportTypes"
    | (orgs) "dashFree o1" "dashFree o2" | (types) "dashFree t1" "dashFree t2"
    | (same_org) "o1 = o2" | (same_type) "t1 = t2"
    by blast
  then have "o1 = o2 \<and> t1 = t2"
  proof cases
    case used
    then show ?thesis using eq by (rule split_reportTypes)
  next
    case orgs
    then show ?thesis using eq by (rule split_at_first_dash)
  next
    case types
    then show ?thesis using eq by (rule split_at_last_dash)
  next
    case same_org
    then show ?thesis using eq by simp
  next
    case same_type
    then show ?thesis using eq by simp
  qed
  with assms(1) show False by simp
qed

theorem getCacheKey_injective_unambiguous_witness:
  "(''acme-labs'', ''security-repo'') \<noteq> (''acme-labs-security'', ''governance-repo'') \<and>
   ''security-repo'' \<in> set reportTypes \<and> ''governance-repo'' \<in> set reportTypes \<and>
   getCacheKey ''acme-labs'' ''security-repo''
     \<noteq> getCacheKey ''acme-labs-security'' ''governance-repo''"
proof -
  have d: "(''acme-labs'', ''security-repo'') \<noteq> (''acme-labs-security'', ''governance-repo'')"
    by simp
  have u: "''security-repo'' \<in> set reportTypes" "''governance-repo'' \<in> set reportTypes"
    by (simp_all add: reportTypes_def)
  from u have h: "(''security-repo'' \<in> set reportTypes \<and> ''governance-repo'' \<in> set reportTypes)
      \<or> (dashFree ''acme-labs'' \<and> dashFree ''acme-labs-security'')
      \<or> (dashFree ''security-repo'' \<and> dashFree ''governance-repo'')
      \<or> ''acme-labs'' = ''acme-labs-security'' \<or> ''security-repo'' = ''governance-repo''"
    by blast
  from getCacheKey_injective_unambiguous [OF d h] d u show ?thesis by blast
qed

section \<open>Properties of the store\<close>

lemma getItem_removeItem:
  "getItem (removeItem st k) k' = (if k' = k then None else getItem st k')"
  by (simp add: getItem_def removeItem_def AList.delete_conv')

lemma getItem_foldl_removeItem:
  "getItem (foldl removeItem st ks) k = (if k \<in> set ks then None else getItem st k)"
  by (induction ks arbitrary: st) (auto simp: getItem_removeItem)

lemma getItem_None_iff: "getItem st k = None \<longleftrightarrow> k \<notin> set (storage_keys st)"
  by (simp add: getItem_def storage_keys_def map_of_eq_None_iff)

lemma getItem_setItem:
  "setItem st k v = Inr st' \<Longrightarrow> getItem st' k' = (if k' = k then Some v else getItem st k')"
  by (auto simp: setItem_def getItem_def Let_def AList.update_conv' split: if_splits)

lemma setItem_cases:
  "setItem st k v = Inl QuotaExceededError \<or> (\<exists>st'. setItem st k v = Inr st')"
  by (simp add: setItem_def Let_def)

section \<open>Evaluation of the sample data\<close>

lemma sample_get [simp]:
  "getItem sample_store (getCacheKey ''acme'' ''costs'') = None"
  "getItem sample_store (getCacheKey ''acme'' ''cleanup'') = Some sample_text"
  \<open>getItem sample_store (getCacheKey ''acme'' ''security'') = Some ''{"data":''\<close>
  "getItem sample_store ''github-org-analyser-settings'' = Some sample_settings_text"
  "getItem sample_store ''theme'' = Some ''dark''"
  by (simp_all add: getItem_def sample_store_def getCacheKey_def CACHE_PREFIX_def)

lemma sample_parse [simp]:
  "JSON_parse sample_runtime sample_text = Some (cacheEntry sample_payload 1000 1)"
  \<open>JSON_parse sample_runtime ''{"data":'' = None\<close>
  "JSON_parse sample_runtime sample_settings_text
     = Some (JObj [(''cache'', JObj [(''ttlHours'', JNum 1)])])"
  "JSON_parse sample_runtime sample_protection_text
     = Some (JObj [(''enforce_admins'', JObj [(''enabled'', JBool True)])])"
  by (simp_all add: sample_runtime_def table_runtime_def sample_text_def
      sample_settings_text_def sample_protection_text_def)

lemma sample_stringify [simp]:
  "JSON_stringify sample_runtime (cacheEntry sample_payload 1000 1) = sample_text"
  by (simp add: sample_runtime_def table_runtime_def)

lemma sample_text_nonempty [simp]: "sample_text \<noteq> []"
  by (simp add: sample_text_def)

lemma sample_entry_props [simp]:
  "get_prop (cacheEntry sample_payload 1000 1) ''expiresAt'' = Inr (Some (JNum 3601000))"
  "get_prop (cacheEntry sample_payload 1000 1) ''data'' = Inr (Some sample_payload)"
  by (simp_all add: cacheEntry_def)

section \<open>Reading the cache\<close>

text \<open>
  Claim C2, as stated: a stored value that fails to parse is removed by the read. It is
  not: the \<open>catch\<close> of \<open>loadFromCache\<close> only logs and returns \<open>null\<close>. Here the entry
  of \<open>(acme, security)\<close> is a truncated text; the read returns \<open>null\<close> and the text is
  still stored afterwards.
\<close>

theorem loadFromCache_keeps_malformed_entry:
  \<open>JSON_parse sample_runtime ''{"data":'' = None \<and>
   getItem sample_store (getCacheKey ''acme'' ''security'') = Some ''{"data":'' \<and>
   fst (loadFromCache sample_runtime 2000 sample_store ''acme'' ''security'') = Some JNull \<and>
   getItem (snd (loadFromCache sample_runtime 2000 sample_store ''acme'' ''security''))
     (getCacheKey ''acme'' ''security'') = Some ''{"data":''\<close>
  by (simp add: loadFromCache_def loadFromCache_try_def)

text \<open>
  Claim C2, amended: \<open>loadFromCache\<close> returns \<open>null\<close> and leaves the store unchanged
  when the entry is absent (or the empty text) and when the stored text fails to parse
  (or is the text of \<open>null\<close>, whose property read throws);
  it returns \<open>null\<close> and removes the entry when \<open>now > expiresAt\<close>; otherwise it
  returns the stored \<open>data\<close> and leaves the store unchanged.
\<close>

theorem loadFromCache_outcomes:
  "(getItem st (getCacheKey orgName dataType) = None \<or>
    getItem st (getCacheKey orgName dataType) = Some [] \<longrightarrow>
      loadFromCache rt now st orgName dataType = (Some JNull, st)) \<and>
   (getItem st (getCacheKey orgName dataType) = Some cached \<and> cached \<noteq> [] \<and>
    (JSON_parse rt cached = None \<or> JSON_parse rt cached = Some JNull) \<longrightarrow>
      loadFromCache rt now st orgName dataType = (Some JNull, st)) \<and>
   (getItem st (getCacheKey orgName dataType) = Some cached \<and> cached \<noteq> [] \<and>
    JSON_parse rt cached = Some obj \<and> get_prop obj ''expiresAt'' = Inr expiresAt \<and>
    js_gt rt now expiresAt \<longrightarrow>
      loadFromCache rt now st orgName dataType
        = (Some JNull, removeItem st (getCacheKey orgName dataType)) \<and>
      getItem (snd (loadFromCache rt now st orgName dataType)) (getCacheKey orgName dataType)
        = None) \<and>
   (getItem st (getCacheKey orgName dataType) = Some cached \<and> cached \<noteq> [] \<and>
    JSON_parse rt cached = Some obj \<and> get_prop obj ''expiresAt'' = Inr expiresAt \<and>
    \<not> js_gt rt now expiresAt \<and> get_prop obj ''data'' = Inr data \<longrightarrow>
      loadFromCache rt now st orgName dataType = (data, st))"
  by (auto simp: loadFromCache_def loadFromCache_try_def getItem_removeItem)

theorem loadFromCache_outcomes_witness:
  \<open>loadFromCache sample_runtime 2000 sample_store ''acme'' ''costs'' = (Some JNull, sample_store) \<and>
   loadFromCache sample_runtime 2000 sample_store ''acme'' ''security'' = (Some JNull, sample_store) \<and>
   loadFromCache sample_runtime 4000000 sample_store ''acme'' ''cleanup''
     = (Some JNull, removeItem sample_store (getCacheKey ''acme'' ''cleanup'')) \<and>
   getItem (snd (loadFromCache sample_runtime 4000000 sample_store ''acme'' ''cleanup''))
     (getCacheKey ''acme'' ''cleanup'') = None \<and>
   loadFromCache sample_runtime 2000 sample_store ''acme'' ''cleanup''
     = (Some sample_payload, sample_store)\<close>
proof -
  have absent: "loadFromCache sample_runtime 2000 sample_store ''acme'' ''costs''
                  = (Some JNull, sample_store)"
    using loadFromCache_outcomes [where st = sample_store and orgName = "''acme''"
        and dataType = "''costs''" and rt = sample_runtime and now = 2000]
    by simp
  have malformed: "loadFromCache sample_runtime 2000 sample_store ''acme'' ''security''
                     = (Some JNull, sample_store)"
    using loadFromCache_outcomes [where st = sample_store and orgName = "''acme''"
        and dataType = "''security''" and rt = sample_runtime and now = 2000
        and cached = \<open>''{"data":''\<close>]
    by simp
  have expired: "loadFromCache sample_runtime 4000000 sample_store ''acme'' ''cleanup''
                   = (Some JNull, removeItem sample_store (getCacheKey ''acme'' ''cleanup'')) \<and>
                 getItem (snd (loadFromCache sample_runtime 4000000 sample_store ''acme'' ''cleanup''))
                   (getCacheKey ''acme'' ''cleanup'') = None"
    using loadFromCache_outcomes [where st = sample_store and orgName = "''acme''"
        and dataType = "''cleanup''" and rt = sample_runtime and now = 4000000
        and cached = sample_text and obj = "cacheEntry sample_payload 1000 1"
        and expiresAt = "Some (JNum 3601000)"]
    by (simp add: js_gt_def getItem_removeItem)
  have live: "loadFromCache sample_runtime 2000 sample_store ''acme'' ''cleanup''
                = (Some sample_payload, sample_store)"
    using loadFromCache_outcomes [where st = sample_store and orgName = "''acme''"
        and dataType = "''cleanup''" and rt = sample_runtime and now = 2000
        and cached = sample_text and obj = "cacheEntry sample_payload 1000 1"
        and expiresAt = "Some (JNum 3601000)" and data = "Some sample_payload"]
    by (simp add: js_gt_def)
  from absent malformed expired live show ?thesis by blast
qed

section \<open>The sweep of expired entries\<close>

lemma set_findExpired:
  "set (findExpired rt now st keys acc) =
     set acc \<union> {k \<in> set keys. k \<noteq> [] \<and> prefix CACHE_PREFIX k
                    \<and> entryExpired rt now st k \<noteq> Inr False}"
  by (induction keys arbitrary: acc) (auto split: sum.splits)

lemma prefix_CACHE_PREFIX_nonempty: "prefix CACHE_PREFIX k \<Longrightarrow> k \<noteq> []"
  by (auto simp: CACHE_PREFIX_def)

text \<open>
  What the sweep leaves in the store: an entry disappears exactly when its key starts
  with the prefix and its check did not come out as "not expired".
\<close>

lemma clearExpiredCaches_getItem:
  "getItem (clearExpiredCaches rt now st) k =
     (if prefix CACHE_PREFIX k \<and> entryExpired rt now st k \<noteq> Inr False then None
      else getItem st k)"
proof (cases "k \<in> set (storage_keys st)")
  case True
  then show ?thesis
    using prefix_CACHE_PREFIX_nonempty [of k]
    by (auto simp: clearExpiredCaches_def getItem_foldl_removeItem set_findExpired)
next
  case False
  then have "getItem st k = None" by (simp add: getItem_None_iff)
  then show ?thesis
    by (auto simp: clearExpiredCaches_def getItem_foldl_removeItem set_findExpired)
qed

text \<open>
  Claim C9: the sweep removes every entry under the prefix whose stored text fails to
  parse and every entry under the prefix with \<open>now > expiresAt\<close>, and leaves the
  entries outside the prefix alone. It never throws:
  \<open>JSON.parse\<close> and the property read are inside the inner \<open>try\<close>, whose \<open>catch\<close>
  marks the key, so \<open>clearExpiredCaches\<close> is a total function that returns the swept
  store, which is the store this theorem reads.
\<close>

theorem clearExpiredCaches_removes:
  assumes "prefix CACHE_PREFIX key" and "getItem st key = Some cached"
    and "JSON_parse rt cached = None \<or>
         (\<exists>obj expiresAt. JSON_parse rt cached = Some obj \<and>
            get_prop obj ''expiresAt'' = Inr expiresAt \<and> js_gt rt now expiresAt)"
  shows "getItem (clearExpiredCaches rt now st) key = None \<and>
         (\<forall>k. \<not> prefix CACHE_PREFIX k \<longrightarrow>
                getItem (clearExpiredCaches rt now st) k = getItem st k)"
proof -
  from assms(2,3) have "entryExpired rt now st key \<noteq> Inr False"
    by (auto simp: entryExpired_def)
  with assms(1) show ?thesis by (simp add: clearExpiredCaches_getItem)
qed

theorem clearExpiredCaches_removes_witness:
  \<open>getItem sample_store (getCacheKey ''acme'' ''security'') = Some ''{"data":'' \<and>
   getItem (clearExpiredCaches sample_runtime 4000000 sample_store)
      (getCacheKey ''acme'' ''security'') = None \<and>
   getItem sample_store (getCacheKey ''acme'' ''cleanup'') = Some sample_text \<and>
   getItem (clearExpiredCaches sample_runtime 4000000 sample_store)
      (getCacheKey ''acme'' ''cleanup'') = None \<and>
   getItem (clearExpiredCaches sample_runtime 4000000 sample_store) ''theme'' = Some ''dark''\<close>
proof -
  have p: "prefix CACHE_PREFIX (getCacheKey ''acme'' ''security'')"
          "prefix CACHE_PREFIX (getCacheKey ''acme'' ''cleanup'')"
    by (simp_all add: getCacheKey_def)
  have a: \<open>getItem (clearExpiredCaches sample_runtime 4000000 sample_store)
      (getCacheKey ''acme'' ''security'') = None\<close>
    by (rule conjunct1 [OF clearExpiredCaches_removes [where cached = \<open>''{"data":''\<close>]])
       (simp_all add: p)
  have b: \<open>getItem (clearExpiredCaches sample_runtime 4000000 sample_store)
      (getCacheKey ''acme'' ''cleanup'') = None\<close>
    by (rule conjunct1 [OF clearExpiredCaches_removes [where cached = sample_text]])
       (simp_all add: p js_gt_def)
  have \<open>\<forall>k. \<not> prefix CACHE_PREFIX k \<longrightarrow>
          getItem (clearExpiredCaches sample_runtime 4000000 sample_store) k
            = getItem sample_store k\<close>
    by (rule conjunct2 [OF clearExpiredCaches_removes [where cached = sample_text
            and key = "getCacheKey ''acme'' ''cleanup''"]])
       (simp_all add: p js_gt_def)
  moreover have "\<not> prefix CACHE_PREFIX ''theme''"
    by (simp add: CACHE_PREFIX_def)
  ultimately have c: "getItem (clearExpiredCaches sample_runtime 4000000 sample_store) ''theme''
                        = Some ''dark''"
    by simp
  from a b c show ?thesis by simp
qed

section \<open>Writing then reading the cache\<close>

text \<open>
  Claim C3, as stated: for every store and payload, a write followed by a read within
  the TTL returns the payload. It fails when \<open>setItem\<close> throws \<open>QuotaExceededError\<close>:
  the \<open>catch\<close> of \<open>saveToCache\<close> sweeps the expired entries and drops the write.
  Here the store is empty and has no capacity left, so the read that follows finds no
  entry and returns \<open>null\<close>.
\<close>

theorem cache_round_trip_fails_on_quota:
  "fst (loadFromCache sample_runtime 1000
         (saveToCache sample_runtime 1000 \<lparr>items = [], quota = 0\<rparr>
            ''acme'' ''cleanup'' sample_payload 1)
         ''acme'' ''cleanup'') = Some JNull \<and> Some JNull \<noteq> Some sample_payload"
proof -
  have full: "setItem \<lparr>items = [], quota = 0\<rparr> (getCacheKey ''acme'' ''cleanup'') sample_text
                = Inl QuotaExceededError"
    by (simp add: setItem_def used_def sample_text_def)
  have sweep: "clearExpiredCaches sample_runtime 1000 \<lparr>items = [], quota = 0\<rparr>
                 = \<lparr>items = [], quota = 0\<rparr>"
    by (simp add: clearExpiredCaches_def storage_keys_def)
  have saved: "saveToCache sample_runtime 1000 \<lparr>items = [], quota = 0\<rparr>
                 ''acme'' ''cleanup'' sample_payload 1 = \<lparr>items = [], quota = 0\<rparr>"
    by (simp add: saveToCache_def full sweep)
  have "loadFromCache sample_runtime 1000 \<lparr>items = [], quota = 0\<rparr> ''acme'' ''cleanup''
          = (Some JNull, \<lparr>items = [], quota = 0\<rparr>)"
    by (simp add: loadFromCache_def loadFromCache_try_def getItem_def)
  with saved show ?thesis by (simp add: sample_payload_def)
qed

lemma cache_round_trip_accepted:
  assumes written: "setItem st (getCacheKey orgName dataType)
                      (JSON_stringify rt (cacheEntry X now ttlHours)) \<noteq> Inl QuotaExceededError"
    and nonempty: "JSON_stringify rt (cacheEntry X now ttlHours) \<noteq> []"
    and codec: "JSON_parse rt (JSON_stringify rt (cacheEntry X now ttlHours))
                  = Some (cacheEntry X now ttlHours)"
    and live: "now' \<le> now + ttlHours * 3600 * 1000"
  shows "loadFromCache rt now' (saveToCache rt now st orgName dataType X ttlHours) orgName dataType
           = (Some X, saveToCache rt now st orgName dataType X ttlHours) \<and>
         (\<exists>cached obj.
            getItem (saveToCache rt now st orgName dataType X ttlHours)
              (getCacheKey orgName dataType) = Some cached \<and>
            JSON_parse rt cached = Some obj \<and>
            get_prop obj ''timestamp'' = Inr (Some (JNum now)) \<and>
            get_prop obj ''expiresAt'' = Inr (Some (JNum (now + ttlHours * 3600 * 1000))))"
proof -
  let ?key = "getCacheKey orgName dataType"
  let ?text = "JSON_stringify rt (cacheEntry X now ttlHours)"
  from written obtain st1 where st1: "setItem st ?key ?text = Inr st1"
    using setItem_cases [of st ?key ?text] by auto
  then have saved: "saveToCache rt now st orgName dataType X ttlHours = st1"
    by (simp add: saveToCache_def)
  have stored: "getItem st1 ?key = Some ?text"
    using getItem_setItem [OF st1] by simp
  have exp: "get_prop (cacheEntry X now ttlHours) ''expiresAt''
               = Inr (Some (JNum (now + ttlHours * 3600 * 1000)))"
    by (simp add: cacheEntry_def)
  have ts: "get_prop (cacheEntry X now ttlHours) ''timestamp'' = Inr (Some (JNum now))"
    by (simp add: cacheEntry_def)
  have dat: "get_prop (cacheEntry X now ttlHours) ''data'' = Inr (Some X)"
    by (simp add: cacheEntry_def)
  have fresh: "\<not> js_gt rt now' (Some (JNum (now + ttlHours * 3600 * 1000)))"
    using live by (simp add: js_gt_def)
  have "loadFromCache rt now' st1 orgName dataType = (Some X, st1)"
    using stored nonempty codec exp dat fresh
    by (simp add: loadFromCache_def loadFromCache_try_def)
  with saved stored codec exp ts show ?thesis by simp
qed

lemma saveToCache_quota:
  assumes "setItem st (getCacheKey orgName dataType)
             (JSON_stringify rt (cacheEntry X now ttlHours)) = Inl QuotaExceededError"
  shows "saveToCache rt now st orgName dataType X ttlHours = clearExpiredCaches rt now st"
  using assms by (simp add: saveToCache_def)

lemma loadFromCache_absent:
  "getItem st (getCacheKey orgName dataType) = None \<Longrightarrow>
     loadFromCache rt now st orgName dataType = (Some JNull, st)"
  by (simp add: loadFromCache_def loadFromCache_try_def)

lemma loadFromCache_live:
  assumes "getItem st (getCacheKey orgName dataType) = Some cached" and "cached \<noteq> []"
    and "JSON_parse rt cached = Some obj" and "get_prop obj ''expiresAt'' = Inr expiresAt"
    and "\<not> js_gt rt now expiresAt" and "get_prop obj ''data'' = Inr data"
  shows "loadFromCache rt now st orgName dataType = (data, st)"
  using assms by (simp add: loadFromCache_def loadFromCache_try_def)

lemma entryExpired_live:
  assumes "getItem st key = Some cached"
    and "JSON_parse rt cached = Some obj" and "get_prop obj ''expiresAt'' = Inr expiresAt"
    and "\<not> js_gt rt now expiresAt"
  shows "entryExpired rt now st key = Inr False"
  using assms by (simp add: entryExpired_def)

text \<open>
  Claim C3, amended: when the write is accepted by the store (\<open>setItem\<close> does not throw
  \<open>QuotaExceededError\<close>) and the entry survives \<open>JSON.stringify\<close> followed by
  \<open>JSON.parse\<close>, then \<open>saveToCache(org, type, X, ttl)\<close> at time \<open>now\<close> followed by
  \<open>loadFromCache(org, type)\<close> at a time \<open>now'\<close> not after
  \<open>now + ttl * 3600 * 1000\<close> returns \<open>X\<close> and leaves the store as written, and the
  stored entry has \<open>timestamp = now\<close> and \<open>expiresAt = now + ttl * 3600 * 1000\<close>.
  When \<open>setItem\<close> throws \<open>QuotaExceededError\<close> nothing is written: the store after
  \<open>saveToCache\<close> is the store swept by \<open>clearExpiredCaches\<close>, which holds under the
  key what was there before unless the sweep removed it, and the read that follows is a
  read of that store. It is a miss when the store held no entry under the key, and it
  returns the data of the entry already stored under the key when that entry is live at
  both times.
\<close>

theorem cache_round_trip:
  "(setItem st (getCacheKey orgName dataType)
      (JSON_stringify rt (cacheEntry X now ttlHours)) \<noteq> Inl QuotaExceededError \<and>
    JSON_stringify rt (cacheEntry X now ttlHours) \<noteq> [] \<and>
    JSON_parse rt (JSON_stringify rt (cacheEntry X now ttlHours))
      = Some (cacheEntry X now ttlHours) \<and>
    now' \<le> now + ttlHours * 3600 * 1000 \<longrightarrow>
      loadFromCache rt now' (saveToCache rt now st orgName dataType X ttlHours) orgName dataType
        = (Some X, saveToCache rt now st orgName dataType X ttlHours) \<and>
      (\<exists>cached obj.
         getItem (saveToCache rt now st orgName dataType X ttlHours)
           (getCacheKey orgName dataType) = Some cached \<and>
         JSON_parse rt cached = Some obj \<and>
         get_prop obj ''timestamp'' = Inr (Some (JNum now)) \<and>
         get_prop obj ''expiresAt'' = Inr (Some (JNum (now + ttlHours * 3600 * 1000))))) \<and>
   (setItem st (getCacheKey orgName dataType)
      (JSON_stringify rt (cacheEntry X now ttlHours)) = Inl QuotaExceededError \<longrightarrow>
      saveToCache rt now st orgName dataType X ttlHours = clearExpiredCaches rt now st \<and>
      getItem (saveToCache rt now st orgName dataType X ttlHours) (getCacheKey orgName dataType)
        = (if getCacheKey orgName dataType \<in> set (findExpired rt now st (storage_keys st) [])
           then None else getItem st (getCacheKey orgName dataType)) \<and>
      loadFromCache rt now' (saveToCache rt now st orgName dataType X ttlHours) orgName dataType
        = loadFromCache rt now' (clearExpiredCaches rt now st) orgName dataType \<and>
      (getItem st (getCacheKey orgName dataType) = None \<longrightarrow>
         loadFromCache rt now' (saveToCache rt now st orgName dataType X ttlHours)
           orgName dataType
           = (Some JNull, saveToCache rt now st orgName dataType X ttlHours)) \<and>
      (getItem st (getCacheKey orgName dataType) = Some old \<and> old \<noteq> [] \<and>
       JSON_parse rt old = Some oldEntry \<and>
       get_prop oldEntry ''expiresAt'' = Inr oldExpiresAt \<and>
       \<not> js_gt rt now oldExpiresAt \<and> \<not> js_gt rt now' oldExpiresAt \<and>
       get_prop oldEntry ''data'' = Inr oldData \<longrightarrow>
         loadFromCache rt now' (saveToCache rt now st orgName dataType X ttlHours)
           orgName dataType
           = (oldData, saveToCache rt now st orgName dataType X ttlHours)))"
proof (intro conjI impI)
  assume a: "setItem st (getCacheKey orgName dataType)
      (JSON_stringify rt (cacheEntry X now ttlHours)) \<noteq> Inl QuotaExceededError \<and>
    JSON_stringify rt (cacheEntry X now ttlHours) \<noteq> [] \<and>
    JSON_parse rt (JSON_stringify rt (cacheEntry X now ttlHours))
      = Some (cacheEntry X now ttlHours) \<and>
    now' \<le> now + ttlHours * 3600 * 1000"
  then have a1: "setItem st (getCacheKey orgName dataType)
      (JSON_stringify rt (cacheEntry X now ttlHours)) \<noteq> Inl QuotaExceededError"
    and a2: "JSON_stringify rt (cacheEntry X now ttlHours) \<noteq> []"
    and a3: "JSON_parse rt (JSON_stringify rt (cacheEntry X now ttlHours))
      = Some (cacheEntry X now ttlHours)"
    and a4: "now' \<le> now + ttlHours * 3600 * 1000"
    by blast+
  note acc = cache_round_trip_accepted [OF a1 a2 a3 a4]
  from acc show "loadFromCache rt now' (saveToCache rt now st orgName dataType X ttlHours)
       orgName dataType = (Some X, saveToCache rt now st orgName dataType X ttlHours)"
    by (rule conjunct1)
  from acc show "\<exists>cached obj.
         getItem (saveToCache rt now st orgName dataType X ttlHours)
           (getCacheKey orgName dataType) = Some cached \<and>
         JSON_parse rt cached = Some obj \<and>
         get_prop obj ''timestamp'' = Inr (Some (JNum now)) \<and>
         get_prop obj ''expiresAt'' = Inr (Some (JNum (now + ttlHours * 3600 * 1000)))"
    by (rule conjunct2)
next
  assume q: "setItem st (getCacheKey orgName dataType)
      (JSON_stringify rt (cacheEntry X now ttlHours)) = Inl QuotaExceededError"
  show s: "saveToCache rt now st orgName dataType X ttlHours = clearExpiredCaches rt now st"
    using q by (rule saveToCache_quota)
  show "getItem (saveToCache rt now st orgName dataType X ttlHours) (getCacheKey orgName dataType)
        = (if getCacheKey orgName dataType \<in> set (findExpired rt now st (storage_keys st) [])
           then None else getItem st (getCacheKey orgName dataType))"
    unfolding s by (simp add: clearExpiredCaches_def getItem_foldl_removeItem)
  show "loadFromCache rt now' (saveToCache rt now st orgName dataType X ttlHours) orgName dataType
        = loadFromCache rt now' (clearExpiredCaches rt now st) orgName dataType"
    unfolding s by (rule refl)
  show "loadFromCache rt now' (saveToCache rt now st orgName dataType X ttlHours)
           orgName dataType
           = (Some JNull, saveToCache rt now st orgName dataType X ttlHours)"
    if "getItem st (getCacheKey orgName dataType) = None"
  proof -
    from that have "getItem (clearExpiredCaches rt now st) (getCacheKey orgName dataType) = None"
      by (simp add: clearExpiredCaches_getItem)
    then show ?thesis unfolding s by (rule loadFromCache_absent)
  qed
  show "loadFromCache rt now' (saveToCache rt now st orgName dataType X ttlHours)
           orgName dataType
           = (oldData, saveToCache rt now st orgName dataType X ttlHours)"
    if h: "getItem st (getCacheKey orgName dataType) = Some old \<and> old \<noteq> [] \<and>
       JSON_parse rt old = Some oldEntry \<and>
       get_prop oldEntry ''expiresAt'' = Inr oldExpiresAt \<and>
       \<not> js_gt rt now oldExpiresAt \<and> \<not> js_gt rt now' oldExpiresAt \<and>
       get_prop oldEntry ''data'' = Inr oldData"
  proof -
    from h have h1: "getItem st (getCacheKey orgName dataType) = Some old"
      and h2: "old \<noteq> []" and h3: "JSON_parse rt old = Some oldEntry"
      and h4: "get_prop oldEntry ''expiresAt'' = Inr oldExpiresAt"
      and h5: "\<not> js_gt rt now oldExpiresAt" and h6: "\<not> js_gt rt now' oldExpiresAt"
      and h7: "get_prop oldEntry ''data'' = Inr oldData"
      by blast+
    have "entryExpired rt now st (getCacheKey orgName dataType) = Inr False"
      using h1 h3 h4 h5 by (rule entryExpired_live)
    then have "getItem (clearExpiredCaches rt now st) (getCacheKey orgName dataType) = Some old"
      using h1 by (simp add: clearExpiredCaches_getItem)
    then show ?thesis unfolding s using h2 h3 h4 h6 h7 by (rule loadFromCache_live)
  qed
qed

lemma sample_wide [simp]:
  "JSON_stringify sample_wide_runtime (cacheEntry sample_wide_payload 2000 1) = sample_wide_text"
  "JSON_parse sample_wide_runtime sample_text = Some (cacheEntry sample_payload 1000 1)"
  by (simp_all add: sample_wide_runtime_def table_runtime_def cacheEntry_def
      sample_wide_payload_def sample_payload_def sample_text_def sample_wide_text_def)

lemma sample_full_setItem:
  "setItem sample_full_store (getCacheKey ''acme'' ''cleanup'') sample_wide_text
     = Inl QuotaExceededError"
  by (simp add: setItem_def sample_full_store_def used_def sample_wide_text_def sample_text_def)

lemma sample_full_sweep:
  "clearExpiredCaches sample_wide_runtime 2000 sample_full_store = sample_full_store"
  by (simp add: clearExpiredCaches_def storage_keys_def sample_full_store_def entryExpired_def
      getItem_def js_gt_def getCacheKey_def CACHE_PREFIX_def)

text \<open>
  The cases on concrete stores: a write into an empty store with room, read back within
  the TTL; a write into an empty store with no capacity, which is dropped, so that the
  read is a miss; and a write of \<open>sample_wide_payload\<close> into the full store, which is
  dropped, so that the read that follows returns the payload of the live entry that was
  already stored under the key.
\<close>

theorem cache_round_trip_witness:
  "loadFromCache sample_runtime 2000
     (saveToCache sample_runtime 1000 \<lparr>items = [], quota = 5000000\<rparr>
        ''acme'' ''cleanup'' sample_payload 1) ''acme'' ''cleanup''
     = (Some sample_payload,
        saveToCache sample_runtime 1000 \<lparr>items = [], quota = 5000000\<rparr>
          ''acme'' ''cleanup'' sample_payload 1) \<and>
   setItem \<lparr>items = [], quota = 0\<rparr> (getCacheKey ''acme'' ''cleanup'')
     (JSON_stringify sample_runtime (cacheEntry sample_payload 1000 1))
     = Inl QuotaExceededError \<and>
   loadFromCache sample_runtime 2000
     (saveToCache sample_runtime 1000 \<lparr>items = [], quota = 0\<rparr>
        ''acme'' ''cleanup'' sample_payload 1) ''acme'' ''cleanup''
     = (Some JNull,
        saveToCache sample_runtime 1000 \<lparr>items = [], quota = 0\<rparr>
          ''acme'' ''cleanup'' sample_payload 1) \<and>
   setItem sample_full_store (getCacheKey ''acme'' ''cleanup'')
     (JSON_stringify sample_wide_runtime (cacheEntry sample_wide_payload 2000 1))
     = Inl QuotaExceededError \<and>
   saveToCache sample_wide_runtime 2000 sample_full_store ''acme'' ''cleanup'' sample_wide_payload 1
     = sample_full_store \<and>
   loadFromCache sample_wide_runtime 3000
     (saveToCache sample_wide_runtime 2000 sample_full_store
        ''acme'' ''cleanup'' sample_wide_payload 1) ''acme'' ''cleanup''
     = (Some sample_payload, sample_full_store) \<and>
   sample_payload \<noteq> sample_wide_payload"
proof -
  have w: "setItem \<lparr>items = [], quota = 5000000\<rparr> (getCacheKey ''acme'' ''cleanup'')
             (JSON_stringify sample_runtime (cacheEntry sample_payload 1000 1))
           \<noteq> Inl QuotaExceededError"
    by (simp add: setItem_def used_def sample_text_def getCacheKey_def CACHE_PREFIX_def)
  have n: "JSON_stringify sample_runtime (cacheEntry sample_payload 1000 1) \<noteq> []"
    by simp
  have c: "JSON_parse sample_runtime (JSON_stringify sample_runtime (cacheEntry sample_payload 1000 1))
             = Some (cacheEntry sample_payload 1000 1)"
    by simp
  have l: "(2000::int) \<le> 1000 + 1 * 3600 * 1000" by simp
  have accepted: "loadFromCache sample_runtime 2000
     (saveToCache sample_runtime 1000 \<lparr>items = [], quota = 5000000\<rparr>
        ''acme'' ''cleanup'' sample_payload 1) ''acme'' ''cleanup''
     = (Some sample_payload,
        saveToCache sample_runtime 1000 \<lparr>items = [], quota = 5000000\<rparr>
          ''acme'' ''cleanup'' sample_payload 1)"
    using cache_round_trip [where st = "\<lparr>items = [], quota = 5000000\<rparr>"
        and orgName = "''acme''" and dataType = "''cleanup''" and rt = sample_runtime
        and X = sample_payload and now = 1000 and ttlHours = 1 and now' = 2000,
        THEN conjunct1] w n c l
    by blast
  have q0: "setItem \<lparr>items = [], quota = 0\<rparr> (getCacheKey ''acme'' ''cleanup'')
             (JSON_stringify sample_runtime (cacheEntry sample_payload 1000 1))
           = Inl QuotaExceededError"
    by (simp add: setItem_def used_def sample_text_def)
  have none: "getItem \<lparr>items = [], quota = 0\<rparr> (getCacheKey ''acme'' ''cleanup'') = None"
    by (simp add: getItem_def)
  have miss: "loadFromCache sample_runtime 2000
     (saveToCache sample_runtime 1000 \<lparr>items = [], quota = 0\<rparr>
        ''acme'' ''cleanup'' sample_payload 1) ''acme'' ''cleanup''
     = (Some JNull,
        saveToCache sample_runtime 1000 \<lparr>items = [], quota = 0\<rparr>
          ''acme'' ''cleanup'' sample_payload 1)"
    using cache_round_trip [where st = "\<lparr>items = [], quota = 0\<rparr>"
        and orgName = "''acme''" and dataType = "''cleanup''" and rt = sample_runtime
        and X = sample_payload and now = 1000 and ttlHours = 1 and now' = 2000,
        THEN conjunct2] q0 none
    by blast
  have q: "setItem sample_full_store (getCacheKey ''acme'' ''cleanup'')
             (JSON_stringify sample_wide_runtime (cacheEntry sample_wide_payload 2000 1))
           = Inl QuotaExceededError"
    by (simp add: sample_full_setItem)
  have old: "getItem sample_full_store (getCacheKey ''acme'' ''cleanup'') = Some sample_text"
    "sample_text \<noteq> []"
    "JSON_parse sample_wide_runtime sample_text = Some (cacheEntry sample_payload 1000 1)"
    "get_prop (cacheEntry sample_payload 1000 1) ''expiresAt'' = Inr (Some (JNum 3601000))"
    "\<not> js_gt sample_wide_runtime 2000 (Some (JNum 3601000))"
    "\<not> js_gt sample_wide_runtime 3000 (Some (JNum 3601000))"
    "get_prop (cacheEntry sample_payload 1000 1) ''data'' = Inr (Some sample_payload)"
    by (simp_all add: getItem_def sample_full_store_def js_gt_def)
  have dropped: "saveToCache sample_wide_runtime 2000 sample_full_store ''acme'' ''cleanup''
                   sample_wide_payload 1
                 = clearExpiredCaches sample_wide_runtime 2000 sample_full_store \<and>
    loadFromCache sample_wide_runtime 3000
      (saveToCache sample_wide_runtime 2000 sample_full_store
         ''acme'' ''cleanup'' sample_wide_payload 1) ''acme'' ''cleanup''
    = (Some sample_payload,
       saveToCache sample_wide_runtime 2000 sample_full_store
         ''acme'' ''cleanup'' sample_wide_payload 1)"
    using cache_round_trip [where st = sample_full_store
        and orgName = "''acme''" and dataType = "''cleanup''" and rt = sample_wide_runtime
        and X = sample_wide_payload and now = 2000 and ttlHours = 1 and now' = 3000
        and old = sample_text and oldEntry = "cacheEntry sample_payload 1000 1"
        and oldExpiresAt = "Some (JNum 3601000)" and oldData = "Some sample_payload",
        THEN conjunct2] q old
    by blast
  have ne: "sample_payload \<noteq> sample_wide_payload"
    by (simp add: sample_payload_def sample_wide_payload_def)
  have saved: "saveToCache sample_wide_runtime 2000 sample_full_store ''acme'' ''cleanup''
                 sample_wide_payload 1 = sample_full_store"
    using dropped by (simp add: sample_full_sweep)
  have loaded: "loadFromCache sample_wide_runtime 3000
      (saveToCache sample_wide_runtime 2000 sample_full_store
         ''acme'' ''cleanup'' sample_wide_payload 1) ''acme'' ''cleanup''
    = (Some sample_payload, sample_full_store)"
    using conjunct2 [OF dropped] by (simp only: saved)
  from accepted q0 miss q saved loaded ne show ?thesis
    by blast
qed

section \<open>Properties of the remote client\<close>

text \<open>
  Claim C4: \<open>isBranchProtected\<close> returns \<open>true\<close> when the fetch of the protection
  sub-resource succeeds, returns \<open>false\<close> exactly when the request completes with HTTP
  status 404, and re-throws every other failure unchanged.
\<close>

theorem isBranchProtected_outcomes:
  "(get rt fetch (protection_endpoint owner repo branch) = Inr v \<longrightarrow>
      isBranchProtected rt fetch owner repo branch = Inr True) \<and>
   (isBranchProtected rt fetch owner repo branch = Inr False \<longleftrightarrow>
      (\<exists>body. fetch (GITHUB_API_BASE @ protection_endpoint owner repo branch)
                 = Response 404 body)) \<and>
   (get rt fetch (protection_endpoint owner repo branch) = Inl e \<and> status e \<noteq> Some 404 \<longrightarrow>
      isBranchProtected rt fetch owner repo branch = Inl e)"
  by (auto simp: isBranchProtected_def get_def response_ok_def
      split: sum.splits fetch_result.splits option.splits if_splits)

theorem isBranchProtected_outcomes_witness:
  "isBranchProtected sample_runtime (\<lambda>url. Response 200 sample_protection_text)
     ''acme'' ''api'' ''main'' = Inr True \<and>
   isBranchProtected sample_runtime (\<lambda>url. Response 404 ''Not Found'')
     ''acme'' ''api'' ''main'' = Inr False \<and>
   isBranchProtected sample_runtime (\<lambda>url. Response 403 ''Forbidden'')
     ''acme'' ''api'' ''main'' = Inl (GitHubApiError 403) \<and>
   isBranchProtected sample_runtime (\<lambda>url. Rejected)
     ''acme'' ''api'' ''main'' = Inl TypeError"
proof -
  have ok: "isBranchProtected sample_runtime (\<lambda>url. Response 200 sample_protection_text)
              ''acme'' ''api'' ''main'' = Inr True"
    using isBranchProtected_outcomes [where rt = sample_runtime
        and fetch = "\<lambda>url. Response 200 sample_protection_text" and owner = "''acme''"
        and repo = "''api''" and branch = "''main''"
        and v = "JObj [(''enforce_admins'', JObj [(''enabled'', JBool True)])]"]
    by (simp add: get_def response_ok_def)
  have missing: "isBranchProtected sample_runtime (\<lambda>url. Response 404 ''Not Found'')
                   ''acme'' ''api'' ''main'' = Inr False"
    using isBranchProtected_outcomes [where rt = sample_runtime
        and fetch = "\<lambda>url. Response 404 ''Not Found''" and owner = "''acme''"
        and repo = "''api''" and branch = "''main''"]
    by simp
  have forbidden: "isBranchProtected sample_runtime (\<lambda>url. Response 403 ''Forbidden'')
                     ''acme'' ''api'' ''main'' = Inl (GitHubApiError 403)"
    using isBranchProtected_outcomes [where rt = sample_runtime
        and fetch = "\<lambda>url. Response 403 ''Forbidden''" and owner = "''acme''"
        and repo = "''api''" and branch = "''main''" and e = "GitHubApiError 403"]
    by (simp add: get_def response_ok_def)
  have offline: "isBranchProtected sample_runtime (\<lambda>url. Rejected)
                   ''acme'' ''api'' ''main'' = Inl TypeError"
    using isBranchProtected_outcomes [where rt = sample_runtime
        and fetch = "\<lambda>url. Rejected" and owner = "''acme''"
        and repo = "''api''" and branch = "''main''" and e = TypeError]
    by (simp add: get_def)
  from ok missing forbidden offline show ?thesis by blast
qed

text \<open>
  Claim C10: \<open>isDependabotEnabled\<close> returns \<open>true\<close> exactly when the status of the
  completed request is 204 (so 404 and every other status give \<open>false\<close>), and returns
  \<open>true\<close> when the request itself throws.
\<close>

theorem isDependabotEnabled_outcomes:
  "(fetch (vulnerability_alerts_url owner repo) = Response s body \<longrightarrow>
      isDependabotEnabled fetch owner repo = (s = 204)) \<and>
   (fetch (vulnerability_alerts_url owner repo) = Rejected \<longrightarrow>
      isDependabotEnabled fetch owner repo = True)"
  by (simp add: isDependabotEnabled_def)

theorem isDependabotEnabled_outcomes_witness:
  "isDependabotEnabled (\<lambda>url. Response 204 []) ''acme'' ''api'' = True \<and>
   isDependabotEnabled (\<lambda>url. Response 404 ''Not Found'') ''acme'' ''api'' = False \<and>
   isDependabotEnabled (\<lambda>url. Response 200 []) ''acme'' ''api'' = False \<and>
   isDependabotEnabled (\<lambda>url. Rejected) ''acme'' ''api'' = True"
proof -
  have enabled: "isDependabotEnabled (\<lambda>url. Response 204 []) ''acme'' ''api'' = True"
    using isDependabotEnabled_outcomes [where fetch = "\<lambda>url. Response 204 []"
        and owner = "''acme''" and repo = "''api''" and s = 204 and body = "[]"]
    by simp
  have disabled: "isDependabotEnabled (\<lambda>url. Response 404 ''Not Found'') ''acme'' ''api'' = False"
    using isDependabotEnabled_outcomes [where fetch = "\<lambda>url. Response 404 ''Not Found''"
        and owner = "''acme''" and repo = "''api''" and s = 404 and body = "''Not Found''"]
    by simp
  have other: "isDependabotEnabled (\<lambda>url. Response 200 []) ''acme'' ''api'' = False"
    using isDependabotEnabled_outcomes [where fetch = "\<lambda>url. Response 200 []"
        and owner = "''acme''" and repo = "''api''" and s = 200 and body = "[]"]
    by simp
  have offline: "isDependabotEnabled (\<lambda>url. Rejected) ''acme'' ''api'' = True"
    using isDependabotEnabled_outcomes [where fetch = "\<lambda>url. Rejected"
        and owner = "''acme''" and repo = "''api''"]
    by simp
  from enabled disabled other offline show ?thesis by blast
qed

section \<open>Properties of sorting\<close>

lemma mset_insert_sorted: "mset (insert_sorted cmp x xs) = add_mset x (mset xs)"
  by (induction xs) auto

lemma mset_array_sort: "mset (array_sort cmp xs) = mset xs"
  by (induction xs) (auto simp: array_sort_def mset_insert_sorted)

lemma set_array_sort: "set (array_sort cmp xs) = set xs"
  by (metis mset_array_sort set_mset_mset)

lemma length_array_sort: "length (array_sort cmp xs) = length xs"
  by (metis mset_array_sort size_mset)

lemma array_sort_Cons: "array_sort cmp (x # xs) = insert_sorted cmp x (array_sort cmp xs)"
  by (simp add: array_sort_def)

lemma array_sort_Nil: "array_sort cmp [] = []"
  by (simp add: array_sort_def)

lemma set_insert_sorted: "set (insert_sorted cmp x xs) = insert x (set xs)"
  by (metis mset_insert_sorted set_mset_add_mset_insert set_mset_mset)

lemma sorted_insert_sorted:
  assumes total: "\<And>a b. cmp a b \<le> 0 \<or> cmp b a \<le> 0"
    and trans: "\<And>a b c. cmp a b \<le> 0 \<Longrightarrow> cmp b c \<le> 0 \<Longrightarrow> cmp a c \<le> 0"
  shows "sorted_wrt (\<lambda>a b. cmp a b \<le> 0) xs \<Longrightarrow> sorted_wrt (\<lambda>a b. cmp a b \<le> 0) (insert_sorted cmp x xs)"
proof (induction xs)
  case Nil
  then show ?case by simp
next
  case (Cons y ys)
  show ?case
  proof (cases "cmp x y \<le> 0")
    case True
    then show ?thesis using Cons.prems trans by auto
  next
    case False
    then have "cmp y x \<le> 0" using total by blast
    then show ?thesis using False Cons by (auto simp: set_insert_sorted)
  qed
qed

lemma sorted_array_sort:
  assumes total: "\<And>a b. cmp a b \<le> 0 \<or> cmp b a \<le> 0"
    and trans: "\<And>a b c. cmp a b \<le> 0 \<Longrightarrow> cmp b c \<le> 0 \<Longrightarrow> cmp a c \<le> 0"
  shows "sorted_wrt (\<lambda>a b. cmp a b \<le> 0) (array_sort cmp xs)"
  by (induction xs) (auto simp: array_sort_Nil array_sort_Cons intro: sorted_insert_sorted [OF total trans])

lemma insert_sorted_cong:
  "(\<And>y. y \<in> set xs \<Longrightarrow> (cmp1 x y \<le> 0) = (cmp2 x y \<le> 0)) \<Longrightarrow>
     insert_sorted cmp1 x xs = insert_sorted cmp2 x xs"
  by (induction xs) auto

lemma array_sort_cong:
  "(\<And>x y. x \<in> set xs \<Longrightarrow> y \<in> set xs \<Longrightarrow> (cmp1 x y \<le> 0) = (cmp2 x y \<le> 0)) \<Longrightarrow>
     array_sort cmp1 xs = array_sort cmp2 xs"
proof (induction xs)
  case Nil
  then show ?case by (simp add: array_sort_Nil)
next
  case (Cons x xs)
  have "array_sort cmp1 xs = array_sort cmp2 xs" using Cons by auto
  moreover have "insert_sorted cmp1 x (array_sort cmp2 xs) = insert_sorted cmp2 x (array_sort cmp2 xs)"
    by (rule insert_sorted_cong) (use Cons.prems in \<open>auto simp: set_array_sort\<close>)
  ultimately show ?case by (simp add: array_sort_Cons)
qed

lemma compareAlerts_le_iff: "compareAlerts a b \<le> 0 \<longleftrightarrow> severityOrder a b"
  by (auto simp: compareAlerts_def severityOrder_def)

lemma compareAlerts_total: "compareAlerts a b \<le> 0 \<or> compareAlerts b a \<le> 0"
  by (auto simp: compareAlerts_def)

lemma compareAlerts_trans:
  "compareAlerts a b \<le> 0 \<Longrightarrow> compareAlerts b c \<le> 0 \<Longrightarrow> compareAlerts a c \<le> 0"
  unfolding compareAlerts_le_iff severityOrder_def by auto

lemma sorted_compareAlerts: "sorted_wrt severityOrder (array_sort compareAlerts rows)"
proof -
  have "sorted_wrt (\<lambda>a b. compareAlerts a b \<le> 0) (array_sort compareAlerts rows)"
    by (rule sorted_array_sort) (rule compareAlerts_total, rule compareAlerts_trans)
  then show ?thesis by (simp add: compareAlerts_le_iff)
qed

lemma compareAlerts_spec_agree:
  "totalAlerts a = critical a + high a + medium a + low a \<Longrightarrow>
   totalAlerts b = critical b + high b + medium b + low b \<Longrightarrow>
     (compareAlerts a b \<le> 0) = (compareAlerts_spec a b \<le> 0)"
  by (auto simp: compareAlerts_def compareAlerts_spec_def)

section \<open>The sample organisation\<close>

lemma sample_active: "activeRepos sample_repos = [sample_web, sample_api, sample_docs, sample_cli]"
  by (simp add: activeRepos_def sample_repos_def sample_web_def sample_attic_def sample_api_def
      sample_mirror_def sample_docs_def sample_cli_def)

lemma sample_names [simp]:
  "name sample_web = ''web''" "name sample_api = ''api''" "name sample_docs = ''docs''"
  "name sample_cli = ''cli''"
  by (simp_all add: sample_web_def sample_api_def sample_docs_def sample_cli_def)

lemma sample_security_loop:
  "security_loop sample_service ''acme'' [sample_web, sample_api, sample_docs, sample_cli] [] []
     [GetOrgRepositories ''acme'']
   = ([sample_web_alerts, sample_api_alerts], [disabledRow sample_docs],
      [GetOrgRepositories ''acme'',
       IsDependabotEnabled ''acme'' ''web'', GetDependabotAlerts ''acme'' ''web'' ''open'',
       IsDependabotEnabled ''acme'' ''api'', GetDependabotAlerts ''acme'' ''api'' ''open'',
       IsDependabotEnabled ''acme'' ''docs'',
       IsDependabotEnabled ''acme'' ''cli'', GetDependabotAlerts ''acme'' ''cli'' ''open''])"
  by (simp add: sample_service_def Let_def alertRow_def countSeverity_def severity_def
      visibility_def sample_web_alerts_def sample_api_alerts_def)
     (simp add: sample_web_def sample_api_def)

lemma sample_security_fetchData:
  "security_fetchData sample_service ''acme''
   = Inr (\<lparr> reposWithAlerts = [sample_web_alerts, sample_api_alerts],
            dependabotDisabledRepos = [disabledRow sample_docs] \<rparr>,
      [GetOrgRepositories ''acme'',
       IsDependabotEnabled ''acme'' ''web'', GetDependabotAlerts ''acme'' ''web'' ''open'',
       IsDependabotEnabled ''acme'' ''api'', GetDependabotAlerts ''acme'' ''api'' ''open'',
       IsDependabotEnabled ''acme'' ''docs'',
       IsDependabotEnabled ''acme'' ''cli'', GetDependabotAlerts ''acme'' ''cli'' ''open''])"
proof -
  have repos: "api_getOrgRepositories sample_service ''acme'' = Inr sample_repos"
    by (simp add: sample_service_def)
  have sorted: "array_sort compareAlerts [sample_web_alerts, sample_api_alerts]
                  = [sample_web_alerts, sample_api_alerts]"
    by (simp add: array_sort_def compareAlerts_def sample_web_alerts_def sample_api_alerts_def)
  show ?thesis
    by (simp add: security_fetchData_def repos sample_active sample_security_loop sorted
        del: security_loop.simps)
qed

section \<open>The loops of the builders\<close>

lemma cleanup_loop_eq:
  "cleanup_loop api orgName today ic sc pc w repos A S P C =
     (A @ concat (map (\<lambda>repo. checkInactive today ic repo
                          (api_getLastPullRequest api orgName (name repo))) repos),
      S @ concat (map (\<lambda>repo. fst (checkStaleBranches api orgName w sc repo
                          (api_getRepoBranches api orgName (name repo)))) repos),
      P @ concat (map (\<lambda>repo. checkOldPRs today pc repo
                          (api_getOpenPullRequests api orgName (name repo))) repos),
      C @ concat (map (\<lambda>repo. [GetLastPullRequest orgName (name repo),
                                 GetRepoBranches orgName (name repo),
                                 GetOpenPullRequests orgName (name repo)]
                          @ snd (checkStaleBranches api orgName w sc repo
                                   (api_getRepoBranches api orgName (name repo)))) repos))"
  by (induction repos arbitrary: A S P C) (simp_all add: Let_def)



lemma archive_loop_eq:
  "archive_loop api orgName today cutoffDate repos A C =
     (A @ concat (map (\<lambda>repo. checkInactive today cutoffDate repo
                          (api_getLastPullRequest api orgName (name repo))) repos),
      C @ map (\<lambda>repo. GetLastPullRequest orgName (name repo)) repos)"
  by (induction repos arbitrary: A C) (simp_all add: Let_def)










section \<open>Rows and calls of one repository\<close>

lemma map_filter_append: "List.map_filter f (xs @ ys) = List.map_filter f xs @ List.map_filter f ys"
  by (simp add: List.map_filter_def)

lemma map_filter_concat:
  "List.map_filter f (concat xss) = concat (map (List.map_filter f) xss)"
  by (induction xss) (simp_all add: map_filter_append List.map_filter_simps)

lemma concat_map_single:
  assumes "distinct (map key xs)" and "x \<in> set xs"
    and "\<And>y. y \<in> set xs \<Longrightarrow> key y \<noteq> key x \<Longrightarrow> g y = []"
  shows "concat (map g xs) = g x"
  using assms
proof (induction xs)
  case Nil
  then show ?case by simp
next
  case (Cons y ys)
  show ?case
  proof (cases "y = x")
    case True
    have "\<And>z. z \<in> set ys \<Longrightarrow> g z = []"
      using Cons.prems True by (metis distinct.simps(2) image_eqI list.set_intros(2) list.simps(9) set_map)
    then have "concat (map g ys) = []" by simp
    with True show ?thesis by simp
  next
    case False
    then have xin: "x \<in> set ys" using Cons.prems by simp
    then have "key y \<noteq> key x" using Cons.prems by force
    then have "g y = []" using Cons.prems by simp
    moreover have "concat (map g ys) = g x"
      using Cons.IH Cons.prems xin by simp
    ultimately show ?thesis by simp
  qed
qed

lemma filter_concat: "filter P (concat xss) = concat (map (filter P) xss)"
  by (induction xss) simp_all

lemma checkStaleBranches_over:
  assumes "int (length (filter (\<lambda>b. branch_name b \<noteq> default_branch repo) branches)) > w"
  shows "checkStaleBranches api orgName w sc repo branches =
           ([\<lparr> repoName = name repo, repoUrl = html_url repo, isWarning = True,
               branchCount = Some (length (filter (\<lambda>b. branch_name b \<noteq> default_branch repo) branches)),
               staleBranchCount = 0, totalBranches = None, authors = None \<rparr>], [])"
  using assms by (simp add: checkStaleBranches_def Let_def)

lemma checkStaleBranches_under:
  assumes "\<not> int (length (filter (\<lambda>b. branch_name b \<noteq> default_branch repo) branches)) > w"
  shows "snd (checkStaleBranches api orgName w sc repo branches) =
           map (\<lambda>b. GetBranchDetails orgName (name repo) (branch_name b))
             (filter (\<lambda>b. branch_name b \<noteq> default_branch repo) branches)"
    and "\<forall>row \<in> set (fst (checkStaleBranches api orgName w sc repo branches)). \<not> isWarning row"
  using assms by (simp_all add: checkStaleBranches_def Let_def)

lemma checkStaleBranches_repoName:
  "row \<in> set (fst (checkStaleBranches api orgName w sc repo branches)) \<Longrightarrow> repoName row = name repo"
  by (auto simp: checkStaleBranches_def Let_def split: if_splits)

lemma branchDetailCalls_step:
  "branchDetailCalls orgName n
     (GetLastPullRequest orgName (name repo) # GetRepoBranches orgName (name repo) #
      GetOpenPullRequests orgName (name repo) #
      snd (checkStaleBranches api orgName w sc repo branches)) =
   (if name repo = n then
      (if int (length (filter (\<lambda>b. branch_name b \<noteq> default_branch repo) branches)) > w then []
       else map branch_name (filter (\<lambda>b. branch_name b \<noteq> default_branch repo) branches))
    else [])"
  by (simp add: branchDetailCalls_def checkStaleBranches_def Let_def List.map_filter_simps
      map_filter_append)
     (simp add: List.map_filter_def comp_def)

lemma filter_mset_singleton:
  assumes "mset ys = mset xs" and "filter P xs = [x]"
  shows "filter P ys = [x]"
proof -
  have "mset (filter P ys) = mset (filter P xs)"
    using assms(1) by (metis mset_filter)
  then have "mset (filter P ys) = {#x#}" using assms(2) by simp
  then show ?thesis by (metis mset_single_iff_right mset_zero_iff_right ex_mset mset.simps(2) mset_eq_setD)
qed

section \<open>The branch-volume guard\<close>

lemma cleanup_fetchData_Inr:
  assumes "api_getOrgRepositories api orgName = Inr repos"
    and "cleanup_fetchData api cfg cal today orgName = Inr (report, calls)"
  shows "staleBranches report = array_sort compareStale
           (concat (map (\<lambda>repo. fst (checkStaleBranches api orgName (branchCountWarning cfg)
                                   (daysBefore cal today (staleBranchDays cfg)) repo
                                   (api_getRepoBranches api orgName (name repo)))) (activeRepos repos)))"
    and "inactiveRepos report = array_sort compareInactive
           (concat (map (\<lambda>repo. checkInactive today (monthsBefore cal today (inactiveRepoMonths cfg))
                                   repo (api_getLastPullRequest api orgName (name repo)))
                      (activeRepos repos)))"
    and "oldPRs report = array_sort compareOldPRs
           (concat (map (\<lambda>repo. checkOldPRs today (daysBefore cal today (oldPRDays cfg)) repo
                                   (api_getOpenPullRequests api orgName (name repo)))
                      (activeRepos repos)))"
    and "calls = [GetOrgRepositories orgName] @
           concat (map (\<lambda>repo. [GetLastPullRequest orgName (name repo),
                                 GetRepoBranches orgName (name repo),
                                 GetOpenPullRequests orgName (name repo)]
                          @ snd (checkStaleBranches api orgName (branchCountWarning cfg)
                                   (daysBefore cal today (staleBranchDays cfg)) repo
                                   (api_getRepoBranches api orgName (name repo)))) (activeRepos repos))"
    and "totalStaleBranchRepos report = length (staleBranches report)"
    and "totalInactive report = length (inactiveRepos report)"
    and "totalOldPRRepos report = length (oldPRs report)"
  using assms by (auto simp: cleanup_fetchData_def cleanup_loop_eq Let_def)

text \<open>
  Claim C8: for an active repository (repository names being unique in the organisation)
  whose non-default branch count exceeds \<open>branchCountWarning\<close>, the stale-branch list
  of the report holds exactly one row for it, the warning row, and the call log holds no
  branch-detail call for it; for a repository at or below the threshold the log holds one
  branch-detail call for each of its non-default branches, in order, and the report holds
  no warning row for it.
\<close>

theorem branch_volume_guard:
  assumes repos: "api_getOrgRepositories api orgName = Inr repos"
    and build: "cleanup_fetchData api cfg cal today orgName = Inr (report, calls)"
    and active: "repo \<in> set (activeRepos repos)"
    and names: "distinct (map name (activeRepos repos))"
    and nonDefault: "nonDefaultBranches =
           filter (\<lambda>b. branch_name b \<noteq> default_branch repo)
             (api_getRepoBranches api orgName (name repo))"
  shows "(int (length nonDefaultBranches) > branchCountWarning cfg \<longrightarrow>
            filter (\<lambda>row. repoName row = name repo) (staleBranches report) =
              [\<lparr> repoName = name repo, repoUrl = html_url repo, isWarning = True,
                 branchCount = Some (length nonDefaultBranches), staleBranchCount = 0,
                 totalBranches = None, authors = None \<rparr>] \<and>
            branchDetailCalls orgName (name repo) calls = []) \<and>
         (\<not> int (length nonDefaultBranches) > branchCountWarning cfg \<longrightarrow>
            branchDetailCalls orgName (name repo) calls = map branch_name nonDefaultBranches \<and>
            (\<forall>row \<in> set (staleBranches report). repoName row = name repo \<longrightarrow> \<not> isWarning row))"
proof -
  let ?w = "branchCountWarning cfg"
  let ?sc = "daysBefore cal today (staleBranchDays cfg)"
  let ?step = "\<lambda>r. checkStaleBranches api orgName ?w ?sc r (api_getRepoBranches api orgName (name r))"
  let ?rows = "concat (map (\<lambda>r. fst (?step r)) (activeRepos repos))"
  let ?P = "\<lambda>row. repoName row = name repo"
  note facts = cleanup_fetchData_Inr [OF repos build]
  have rows_of_repo: "filter ?P ?rows = fst (?step repo)"
  proof -
    have "filter ?P ?rows = concat (map (\<lambda>r. filter ?P (fst (?step r))) (activeRepos repos))"
      by (simp add: filter_concat comp_def)
    also have "\<dots> = filter ?P (fst (?step repo))"
    proof (rule concat_map_single [where key = name, OF names active])
      fix y assume "y \<in> set (activeRepos repos)" and "name y \<noteq> name repo"
      then show "filter ?P (fst (?step y)) = []"
        by (auto simp: filter_empty_conv dest: checkStaleBranches_repoName)
    qed
    also have "\<dots> = fst (?step repo)"
      by (auto simp: filter_id_conv dest: checkStaleBranches_repoName)
    finally show ?thesis .
  qed
  have calls_of_repo: "branchDetailCalls orgName (name repo) calls =
      (if int (length nonDefaultBranches) > ?w then [] else map branch_name nonDefaultBranches)"
  proof -
    let ?g = "\<lambda>r. [GetLastPullRequest orgName (name r), GetRepoBranches orgName (name r),
                     GetOpenPullRequests orgName (name r)] @ snd (?step r)"
    have "branchDetailCalls orgName (name repo) calls =
            concat (map (\<lambda>r. branchDetailCalls orgName (name repo) (?g r)) (activeRepos repos))"
      unfolding facts(4)
      by (simp add: branchDetailCalls_def map_filter_append map_filter_concat
          List.map_filter_simps comp_def)
    also have "\<dots> = branchDetailCalls orgName (name repo) (?g repo)"
    proof (rule concat_map_single [where key = name, OF names active])
      fix y assume "y \<in> set (activeRepos repos)" and "name y \<noteq> name repo"
      then show "branchDetailCalls orgName (name repo) (?g y) = []"
        by (simp add: branchDetailCalls_step)
    qed
    finally show ?thesis by (simp add: branchDetailCalls_step nonDefault)
  qed
  show ?thesis
  proof (intro conjI impI)
    assume over: "int (length nonDefaultBranches) > ?w"
    then have "fst (?step repo) =
        [\<lparr> repoName = name repo, repoUrl = html_url repo, isWarning = True,
           branchCount = Some (length nonDefaultBranches), staleBranchCount = 0,
           totalBranches = None, authors = None \<rparr>]"
      unfolding nonDefault by (simp add: checkStaleBranches_over)
    with rows_of_repo have "filter ?P ?rows =
        [\<lparr> repoName = name repo, repoUrl = html_url repo, isWarning = True,
           branchCount = Some (length nonDefaultBranches), staleBranchCount = 0,
           totalBranches = None, authors = None \<rparr>]"
      by simp
    then show "filter ?P (staleBranches report) =
        [\<lparr> repoName = name repo, repoUrl = html_url repo, isWarning = True,
           branchCount = Some (length nonDefaultBranches), staleBranchCount = 0,
           totalBranches = None, authors = None \<rparr>]"
      unfolding facts(1) by (rule filter_mset_singleton [rotated]) (simp add: mset_array_sort)
    from over show "branchDetailCalls orgName (name repo) calls = []"
      by (simp add: calls_of_repo)
  next
    assume under: "\<not> int (length nonDefaultBranches) > ?w"
    then show "branchDetailCalls orgName (name repo) calls = map branch_name nonDefaultBranches"
      by (simp add: calls_of_repo)
    show "\<forall>row \<in> set (staleBranches report). repoName row = name repo \<longrightarrow> \<not> isWarning row"
    proof (intro ballI impI)
      fix row assume "row \<in> set (staleBranches report)" and "repoName row = name repo"
      then have "row \<in> set (filter ?P ?rows)"
        unfolding facts(1) by (simp add: set_array_sort)
      then have "row \<in> set (fst (?step repo))" by (simp only: rows_of_repo)
      then show "\<not> isWarning row"
        using under checkStaleBranches_under(2) unfolding nonDefault by blast
    qed
  qed
qed

section \<open>The cleanup builder on the sample organisation\<close>

lemma sample_getOrgRepositories [simp]:
  "api_getOrgRepositories sample_service ''acme'' = Inr sample_repos"
  by (simp add: sample_service_def)

lemma sample_branches [simp]:
  "api_getRepoBranches sample_service ''acme'' ''web''
     = [\<lparr>branch_name = ''main''\<rparr>, \<lparr>branch_name = ''feat-1''\<rparr>,
        \<lparr>branch_name = ''feat-2''\<rparr>, \<lparr>branch_name = ''feat-3''\<rparr>]"
  "api_getRepoBranches sample_service ''acme'' ''api''
     = [\<lparr>branch_name = ''main''\<rparr>, \<lparr>branch_name = ''old''\<rparr>]"
  "api_getRepoBranches sample_service ''acme'' ''docs''
     = [\<lparr>branch_name = ''main''\<rparr>, \<lparr>branch_name = ''legacy''\<rparr>]"
  "api_getRepoBranches sample_service ''acme'' ''cli'' = [\<lparr>branch_name = ''main''\<rparr>]"
  by (simp_all add: sample_service_def)

lemma sample_details [simp]:
  "api_getBranchDetails sample_service org r b
     = Some \<lparr>commit = Some \<lparr>author_date = 0, author_login = Some ''alice'',
                             author_name = ''Alice''\<rparr>\<rparr>"
  "api_getLastPullRequest sample_service org r = None"
  "api_getOpenPullRequests sample_service org r = []"
  by (simp_all add: sample_service_def)

lemma sample_repo_fields [simp]:
  "default_branch sample_web = ''main''" "default_branch sample_api = ''main''"
  "default_branch sample_docs = ''main''" "default_branch sample_cli = ''main''"
  "html_url sample_web = ''https://github.com/acme/web''"
  "html_url sample_api = ''https://github.com/acme/api''"
  "html_url sample_docs = ''https://github.com/acme/docs''"
  "html_url sample_cli = ''https://github.com/acme/cli''"
  "pushed_at sample_web = 0" "pushed_at sample_api = 0" "pushed_at sample_docs = 0"
  "pushed_at sample_cli = 0"
  "is_private sample_web = False" "is_private sample_api = True"
  "is_private sample_docs = False" "is_private sample_cli = False"
  by (simp_all add: sample_web_def sample_api_def sample_docs_def sample_cli_def)

lemma sample_cutoffs [simp]:
  "daysBefore sample_calendar sample_today (staleBranchDays sample_config) = 864000000"
  "daysBefore sample_calendar sample_today (oldPRDays sample_config) = 3456000000"
  "monthsBefore sample_calendar sample_today (inactiveRepoMonths sample_config) = - 22464000000"
  "branchCountWarning sample_config = 2"
  by (simp_all add: sample_calendar_def sample_today_def sample_config_def msPerDay_def)

lemma sample_checkStale:
  "checkStaleBranches sample_service ''acme'' 2 864000000 sample_web
     [\<lparr>branch_name = ''main''\<rparr>, \<lparr>branch_name = ''feat-1''\<rparr>,
      \<lparr>branch_name = ''feat-2''\<rparr>, \<lparr>branch_name = ''feat-3''\<rparr>] = ([sample_stale_rows ! 0], [])"
  "checkStaleBranches sample_service ''acme'' 2 864000000 sample_api
     [\<lparr>branch_name = ''main''\<rparr>, \<lparr>branch_name = ''old''\<rparr>]
     = ([sample_stale_rows ! 1], [GetBranchDetails ''acme'' ''api'' ''old''])"
  "checkStaleBranches sample_service ''acme'' 2 864000000 sample_docs
     [\<lparr>branch_name = ''main''\<rparr>, \<lparr>branch_name = ''legacy''\<rparr>]
     = ([sample_stale_rows ! 2], [GetBranchDetails ''acme'' ''docs'' ''legacy''])"
  "checkStaleBranches sample_service ''acme'' 2 864000000 sample_cli
     [\<lparr>branch_name = ''main''\<rparr>] = ([], [])"
  by (simp_all add: checkStaleBranches_def Let_def checkBranch_def msPerDay_def sample_stale_rows_def)

lemma sample_checkInactive:
  "checkInactive sample_today (- 22464000000) sample_web None = []"
  "checkInactive sample_today (- 22464000000) sample_api None = []"
  "checkInactive sample_today (- 22464000000) sample_docs None = []"
  "checkInactive sample_today (- 22464000000) sample_cli None = []"
  by (simp_all add: checkInactive_def Let_def msPerDay_def sample_today_def)

lemma sample_sorted_stale: "array_sort compareStale sample_stale_rows = sample_stale_rows"
  by (simp add: array_sort_def compareStale_def sample_stale_rows_def)

lemma sample_cleanup:
  "cleanup_fetchData sample_service sample_config sample_calendar sample_today ''acme''
     = Inr (sample_cleanup_report, sample_cleanup_calls)"
proof -
  have loop: "cleanup_loop sample_service ''acme'' sample_today (- 22464000000) 864000000
                3456000000 2 [sample_web, sample_api, sample_docs, sample_cli] [] [] []
                [GetOrgRepositories ''acme'']
              = ([], sample_stale_rows, [], sample_cleanup_calls)"
    by (simp add: cleanup_loop_eq sample_checkStale sample_checkInactive checkOldPRs_def
        sample_cleanup_calls_def) (simp add: sample_stale_rows_def)
  have len: "length sample_stale_rows = 3"
    by (simp add: sample_stale_rows_def)
  show ?thesis
    by (simp add: cleanup_fetchData_def sample_active loop sample_sorted_stale array_sort_Nil
        sample_cleanup_report_def len del: cleanup_loop.simps)
qed

section \<open>Totals and display lists\<close>

lemma sample_securityRepo_loop:
  "securityRepo_loop sample_service ''acme'' [sample_web, sample_api, sample_docs, sample_cli]
     [] [] [GetOrgRepositories ''acme'']
   = (sample_unprotected, sample_noAdmin, sample_securityRepo_calls)"
  by (simp add: Let_def sample_service_def visibility_def sample_unprotected_def sample_noAdmin_def
      sample_securityRepo_calls_def)

lemma sample_securityRepo:
  "securityRepo_fetchData sample_service sample_config ''acme''
     = Inr (sample_securityRepo_report, sample_securityRepo_calls)"
proof -
  have len: "length sample_unprotected = 3" "length sample_noAdmin = 3"
    by (simp_all add: sample_unprotected_def sample_noAdmin_def)
  have lim: "maxUnprotectedRepos sample_config = 2" "maxNoAdminRepos sample_config = 2"
    by (simp_all add: sample_config_def)
  show ?thesis
    by (simp add: securityRepo_fetchData_def sample_active sample_securityRepo_loop slice0_def
        sample_securityRepo_report_def len lim del: securityRepo_loop.simps)
qed

lemma length_slice0: "0 \<le> n \<Longrightarrow> length (slice0 n xs) = min (length xs) (nat n)"
  by (simp add: slice0_def)

lemma slice0_take: "0 \<le> n \<Longrightarrow> slice0 n xs = take (nat n) xs"
  by (simp add: slice0_def)

lemma securityRepo_loop_eq:
  "securityRepo_loop api orgName repos U N C =
     (U @ map unprotectedRow (filter (\<lambda>repo. \<not> repoIsProtected api orgName repo) repos),
      N @ map (noAdminRow api orgName)
            (filter (\<lambda>repo. totalExplicitAdmins api orgName repo = 0) repos),
      C @ concat (map (\<lambda>repo. [IsBranchProtected orgName (name repo) (default_branch repo),
                                GetRepoTeams orgName (name repo),
                                GetRepoDirectCollaborators orgName (name repo)]) repos))"
  by (induction repos arbitrary: U N C)
     (simp_all add: Let_def repoIsProtected_def totalExplicitAdmins_def repoTeams_def
        repoDirectCollaborators_def unprotectedRow_def noAdminRow_def)

lemma security_loop_rows:
  "fst (security_loop api orgName repos A D C) =
     A @ concat (map (repoAlertRows api orgName) repos)"
  by (induction repos arbitrary: A D C) (simp_all add: Let_def repoAlertRows_def)

lemma sorted_insert_sorted_on:
  assumes total: "\<And>a b. a \<in> S \<Longrightarrow> b \<in> S \<Longrightarrow> cmp a b \<le> 0 \<or> cmp b a \<le> 0"
    and trans: "\<And>a b c. a \<in> S \<Longrightarrow> b \<in> S \<Longrightarrow> c \<in> S \<Longrightarrow>
                  cmp a b \<le> 0 \<Longrightarrow> cmp b c \<le> 0 \<Longrightarrow> cmp a c \<le> 0"
  shows "x \<in> S \<Longrightarrow> set xs \<subseteq> S \<Longrightarrow> sorted_wrt (\<lambda>a b. cmp a b \<le> 0) xs \<Longrightarrow>
           sorted_wrt (\<lambda>a b. cmp a b \<le> 0) (insert_sorted cmp x xs)"
proof (induction xs)
  case Nil
  then show ?case by simp
next
  case (Cons y ys)
  show ?case
  proof (cases "cmp x y \<le> 0")
    case True
    have "cmp x z \<le> 0" if "z \<in> set ys" for z
    proof -
      have "cmp y z \<le> 0" using Cons.prems(3) that by simp
      with True show ?thesis using trans [of x y z] Cons.prems(1,2) that by auto
    qed
    with True Cons.prems(3) show ?thesis by simp
  next
    case False
    then have "cmp y x \<le> 0" using total [of x y] Cons.prems(1,2) by auto
    then show ?thesis using False Cons by (auto simp: set_insert_sorted)
  qed
qed

lemma sorted_array_sort_on:
  assumes total: "\<And>a b. a \<in> set xs \<Longrightarrow> b \<in> set xs \<Longrightarrow> cmp a b \<le> 0 \<or> cmp b a \<le> 0"
    and trans: "\<And>a b c. a \<in> set xs \<Longrightarrow> b \<in> set xs \<Longrightarrow> c \<in> set xs \<Longrightarrow>
                  cmp a b \<le> 0 \<Longrightarrow> cmp b c \<le> 0 \<Longrightarrow> cmp a c \<le> 0"
  shows "sorted_wrt (\<lambda>a b. cmp a b \<le> 0) (array_sort cmp xs)"
proof -
  have "set ys \<subseteq> set xs \<Longrightarrow> sorted_wrt (\<lambda>a b. cmp a b \<le> 0) (array_sort cmp ys)" for ys
  proof (induction ys)
    case Nil
    then show ?case by (simp add: array_sort_Nil)
  next
    case (Cons y ys)
    then have "sorted_wrt (\<lambda>a b. cmp a b \<le> 0) (array_sort cmp ys)" by simp
    moreover have "y \<in> set xs" "set (array_sort cmp ys) \<subseteq> set xs"
      using Cons.prems by (simp_all add: set_array_sort)
    ultimately show ?case
      unfolding array_sort_Cons
      by (intro sorted_insert_sorted_on [where S = "set xs"]) (use total trans in blast)+
  qed
  then show ?thesis by simp
qed

lemma compareStale_le_iff: "compareStale a b \<le> 0 \<longleftrightarrow> staleOrder a b"
  by (auto simp: compareStale_def staleOrder_def split: option.splits)

lemma staleRows_counted:
  "row \<in> set (fst (checkStaleBranches api orgName w sc repo branches)) \<Longrightarrow>
     isWarning row \<Longrightarrow> branchCount row \<noteq> None"
  by (auto simp: checkStaleBranches_def Let_def split: if_splits)

lemma sorted_compareStale:
  assumes "\<And>row. row \<in> set rows \<Longrightarrow> isWarning row \<Longrightarrow> branchCount row \<noteq> None"
  shows "sorted_wrt staleOrder (array_sort compareStale rows)"
proof -
  have "sorted_wrt (\<lambda>a b. compareStale a b \<le> 0) (array_sort compareStale rows)"
  proof (rule sorted_array_sort_on)
    fix a b assume "a \<in> set rows" "b \<in> set rows"
    then show "compareStale a b \<le> 0 \<or> compareStale b a \<le> 0"
      using assms [of a] assms [of b]
      by (auto simp: compareStale_def split: option.splits)
  next
    fix a b c assume "a \<in> set rows" "b \<in> set rows" "c \<in> set rows"
      and "compareStale a b \<le> 0" "compareStale b c \<le> 0"
    then show "compareStale a c \<le> 0"
      using assms [of a] assms [of b] assms [of c]
      unfolding compareStale_le_iff staleOrder_def
      by (auto split: if_splits option.splits)
  qed
  then show ?thesis by (simp add: compareStale_le_iff)
qed

lemma sorted_compareInactive: "sorted_wrt inactiveOrder (array_sort compareInactive rows)"
proof -
  have "sorted_wrt (\<lambda>a b. compareInactive a b \<le> 0) (array_sort compareInactive rows)"
    by (rule sorted_array_sort) (auto simp: compareInactive_def)
  moreover have "inactiveOrder = (\<lambda>a b. compareInactive a b \<le> 0)"
    by (auto simp: fun_eq_iff compareInactive_def inactiveOrder_def)
  ultimately show ?thesis by simp
qed

lemma sorted_compareOldPRs: "sorted_wrt oldPRsOrder (array_sort compareOldPRs rows)"
proof -
  have "sorted_wrt (\<lambda>a b. compareOldPRs a b \<le> 0) (array_sort compareOldPRs rows)"
    by (rule sorted_array_sort) (auto simp: compareOldPRs_def)
  moreover have "oldPRsOrder = (\<lambda>a b. compareOldPRs a b \<le> 0)"
    by (auto simp: fun_eq_iff compareOldPRs_def oldPRsOrder_def)
  ultimately show ?thesis by simp
qed

lemma foldl_sum: "foldl (\<lambda>sum row. sum + f row) (a :: nat) xs = a + sum_list (map f xs)"
  by (induction xs arbitrary: a) simp_all

lemma sum_list_array_sort: "sum_list (map f (array_sort cmp xs)) = sum_list (map (f :: 'a \<Rightarrow> nat) xs)"
proof -
  have "mset (map f (array_sort cmp xs)) = mset (map f xs)"
    by (simp add: mset_array_sort)
  then show ?thesis by (metis sum_mset_sum_list)
qed

lemma cleanup_report_lists:
  assumes "api_getOrgRepositories api orgName = Inr repos"
    and "cleanup_fetchData api cfg cal today orgName = Inr (report, calls)"
  shows "inactiveRepos report = array_sort compareInactive (inactiveRows api cfg cal today orgName repos)"
    and "staleBranches report = array_sort compareStale (staleRows api cfg cal today orgName repos)"
    and "oldPRs report = array_sort compareOldPRs (oldPRRows api cfg cal today orgName repos)"
    and "totalInactive report = length (inactiveRows api cfg cal today orgName repos)"
    and "totalStaleBranchRepos report = length (staleRows api cfg cal today orgName repos)"
    and "totalOldPRRepos report = length (oldPRRows api cfg cal today orgName repos)"
    and "totalOldPRs report = sum_list (map oldPRCount (oldPRRows api cfg cal today orgName repos))"
  using assms
  by (auto simp: cleanup_fetchData_def cleanup_loop_eq Let_def inactiveRows_def staleRows_def
      oldPRRows_def length_array_sort foldl_sum sum_list_array_sort)

lemma archive_report_lists:
  assumes "api_getOrgRepositories api orgName = Inr repos"
    and "archive_fetchData api cfg cal today orgName = Inr (report, calls)"
  shows "archive_inactiveRepos report = slice0 (maxInactiveRepos cfg)
           (array_sort compareInactive (inactiveRows api cfg cal today orgName repos))"
    and "archive_totalInactive report = length (inactiveRows api cfg cal today orgName repos)"
  using assms
  by (auto simp: archive_fetchData_def archive_loop_eq Let_def inactiveRows_def length_array_sort)

lemma securityRepo_report_lists:
  assumes "api_getOrgRepositories api orgName = Inr repos"
    and "securityRepo_fetchData api cfg orgName = Inr (report, calls)"
  shows "unprotectedRepos report = slice0 (maxUnprotectedRepos cfg)
           (map unprotectedRow (filter (\<lambda>repo. \<not> repoIsProtected api orgName repo) (activeRepos repos)))"
    and "totalUnprotected report =
           length (filter (\<lambda>repo. \<not> repoIsProtected api orgName repo) (activeRepos repos))"
    and "noAdminRepos report = slice0 (maxNoAdminRepos cfg)
           (map (noAdminRow api orgName)
              (filter (\<lambda>repo. totalExplicitAdmins api orgName repo = 0) (activeRepos repos)))"
    and "totalNoAdmin report =
           length (filter (\<lambda>repo. totalExplicitAdmins api orgName repo = 0) (activeRepos repos))"
  using assms by (auto simp: securityRepo_fetchData_def securityRepo_loop_eq)

lemma security_report_list:
  assumes "api_getOrgRepositories api orgName = Inr repos"
    and "security_fetchData api orgName = Inr (report, calls)"
  shows "reposWithAlerts report =
           array_sort compareAlerts (concat (map (repoAlertRows api orgName) (activeRepos repos)))"
proof -
  from assms have "reposWithAlerts report = array_sort compareAlerts
      (fst (security_loop api orgName (activeRepos repos) [] [] [GetOrgRepositories orgName]))"
    by (auto simp: security_fetchData_def split: prod.splits)
  then show ?thesis by (simp add: security_loop_rows)
qed

text \<open>
  Claim C6, amended, builder by builder, for a build that succeeds. The cleanup builder
  returns each of its three lists whole: the list holds exactly the rows of the active
  repositories that match, sorted by its comparator, and the total recorded beside it is
  the number of those rows, which is the length of the list (\<open>totalOldPRs\<close> is the sum
  of the pull-request counts of the rows); no display limit is read. The
  repository-security builder records the number of matching active repositories and
  returns the first \<open>limit\<close> rows in the order of the repositories (it does not sort).
  The archive builder sorts the matching rows by days inactive, descending, records their
  number and returns the first \<open>limit\<close> rows of the sorted list. For a limit that is
  not negative the list of these two builders has \<open>min total limit\<close> rows. The alert
  builder returns all its rows sorted by severity and records no total.
\<close>

theorem report_totals_and_display_lists:
  "(api_getOrgRepositories api orgName = Inr repos \<and>
    cleanup_fetchData api cfg cal today orgName = Inr (cleanupReport, cleanupCalls) \<longrightarrow>
      mset (inactiveRepos cleanupReport) = mset (inactiveRows api cfg cal today orgName repos) \<and>
      sorted_wrt inactiveOrder (inactiveRepos cleanupReport) \<and>
      totalInactive cleanupReport = length (inactiveRows api cfg cal today orgName repos) \<and>
      mset (staleBranches cleanupReport) = mset (staleRows api cfg cal today orgName repos) \<and>
      sorted_wrt staleOrder (staleBranches cleanupReport) \<and>
      totalStaleBranchRepos cleanupReport = length (staleRows api cfg cal today orgName repos) \<and>
      mset (oldPRs cleanupReport) = mset (oldPRRows api cfg cal today orgName repos) \<and>
      sorted_wrt oldPRsOrder (oldPRs cleanupReport) \<and>
      totalOldPRRepos cleanupReport = length (oldPRRows api cfg cal today orgName repos) \<and>
      totalOldPRs cleanupReport
        = sum_list (map oldPRCount (oldPRRows api cfg cal today orgName repos)) \<and>
      length (inactiveRepos cleanupReport) = totalInactive cleanupReport \<and>
      length (staleBranches cleanupReport) = totalStaleBranchRepos cleanupReport \<and>
      length (oldPRs cleanupReport) = totalOldPRRepos cleanupReport) \<and>
   (api_getOrgRepositories api orgName = Inr repos \<and>
    securityRepo_fetchData api cfg orgName = Inr (securityRepoReport, securityRepoCalls) \<longrightarrow>
      totalUnprotected securityRepoReport
        = length (filter (\<lambda>repo. \<not> repoIsProtected api orgName repo) (activeRepos repos)) \<and>
      unprotectedRepos securityRepoReport
        = slice0 (maxUnprotectedRepos cfg)
            (map unprotectedRow
               (filter (\<lambda>repo. \<not> repoIsProtected api orgName repo) (activeRepos repos))) \<and>
      totalNoAdmin securityRepoReport
        = length (filter (\<lambda>repo. totalExplicitAdmins api orgName repo = 0) (activeRepos repos)) \<and>
      noAdminRepos securityRepoReport
        = slice0 (maxNoAdminRepos cfg)
            (map (noAdminRow api orgName)
               (filter (\<lambda>repo. totalExplicitAdmins api orgName repo = 0) (activeRepos repos))) \<and>
      (0 \<le> maxUnprotectedRepos cfg \<longrightarrow>
         length (unprotectedRepos securityRepoReport)
           = min (totalUnprotected securityRepoReport) (nat (maxUnprotectedRepos cfg))) \<and>
      (0 \<le> maxNoAdminRepos cfg \<longrightarrow>
         length (noAdminRepos securityRepoReport)
           = min (totalNoAdmin securityRepoReport) (nat (maxNoAdminRepos cfg)))) \<and>
   (api_getOrgRepositories api orgName = Inr repos \<and>
    archive_fetchData api cfg cal today orgName = Inr (archiveReport, archiveCalls) \<longrightarrow>
      archive_totalInactive archiveReport
        = length (inactiveRows api cfg cal today orgName repos) \<and>
      archive_inactiveRepos archiveReport
        = slice0 (maxInactiveRepos cfg)
            (array_sort compareInactive (inactiveRows api cfg cal today orgName repos)) \<and>
      mset (array_sort compareInactive (inactiveRows api cfg cal today orgName repos))
        = mset (inactiveRows api cfg cal today orgName repos) \<and>
      sorted_wrt inactiveOrder
        (array_sort compareInactive (inactiveRows api cfg cal today orgName repos)) \<and>
      (0 \<le> maxInactiveRepos cfg \<longrightarrow>
         length (archive_inactiveRepos archiveReport)
           = min (archive_totalInactive archiveReport) (nat (maxInactiveRepos cfg)))) \<and>
   (api_getOrgRepositories api orgName = Inr repos \<and>
    security_fetchData api orgName = Inr (securityReport, securityCalls) \<longrightarrow>
      mset (reposWithAlerts securityReport)
        = mset (concat (map (repoAlertRows api orgName) (activeRepos repos))) \<and>
      sorted_wrt severityOrder (reposWithAlerts securityReport))"
proof (intro conjI impI)
  assume a: "api_getOrgRepositories api orgName = Inr repos \<and>
    cleanup_fetchData api cfg cal today orgName = Inr (cleanupReport, cleanupCalls)"
  note facts = cleanup_report_lists [OF conjunct1 [OF a] conjunct2 [OF a]]
  have counted: "\<And>row. row \<in> set (staleRows api cfg cal today orgName repos) \<Longrightarrow>
                   isWarning row \<Longrightarrow> branchCount row \<noteq> None"
    by (auto simp: staleRows_def dest: staleRows_counted)
  show "mset (inactiveRepos cleanupReport) = mset (inactiveRows api cfg cal today orgName repos)"
    unfolding facts(1) by (rule mset_array_sort)
  show "sorted_wrt inactiveOrder (inactiveRepos cleanupReport)"
    unfolding facts(1) by (rule sorted_compareInactive)
  show "totalInactive cleanupReport = length (inactiveRows api cfg cal today orgName repos)"
    by (rule facts(4))
  show "mset (staleBranches cleanupReport) = mset (staleRows api cfg cal today orgName repos)"
    unfolding facts(2) by (rule mset_array_sort)
  show "sorted_wrt staleOrder (staleBranches cleanupReport)"
    unfolding facts(2) using counted by (rule sorted_compareStale)
  show "totalStaleBranchRepos cleanupReport = length (staleRows api cfg cal today orgName repos)"
    by (rule facts(5))
  show "mset (oldPRs cleanupReport) = mset (oldPRRows api cfg cal today orgName repos)"
    unfolding facts(3) by (rule mset_array_sort)
  show "sorted_wrt oldPRsOrder (oldPRs cleanupReport)"
    unfolding facts(3) by (rule sorted_compareOldPRs)
  show "totalOldPRRepos cleanupReport = length (oldPRRows api cfg cal today orgName repos)"
    by (rule facts(6))
  show "totalOldPRs cleanupReport
        = sum_list (map oldPRCount (oldPRRows api cfg cal today orgName repos))"
    by (rule facts(7))
  show "length (inactiveRepos cleanupReport) = totalInactive cleanupReport"
    by (simp add: facts(1,4) length_array_sort)
  show "length (staleBranches cleanupReport) = totalStaleBranchRepos cleanupReport"
    by (simp add: facts(2,5) length_array_sort)
  show "length (oldPRs cleanupReport) = totalOldPRRepos cleanupReport"
    by (simp add: facts(3,6) length_array_sort)
next
  assume a: "api_getOrgRepositories api orgName = Inr repos \<and>
    securityRepo_fetchData api cfg orgName = Inr (securityRepoReport, securityRepoCalls)"
  note facts = securityRepo_report_lists [OF conjunct1 [OF a] conjunct2 [OF a]]
  show "totalUnprotected securityRepoReport
        = length (filter (\<lambda>repo. \<not> repoIsProtected api orgName repo) (activeRepos repos))"
    by (rule facts(2))
  show "unprotectedRepos securityRepoReport
        = slice0 (maxUnprotectedRepos cfg)
            (map unprotectedRow
               (filter (\<lambda>repo. \<not> repoIsProtected api orgName repo) (activeRepos repos)))"
    by (rule facts(1))
  show "totalNoAdmin securityRepoReport
        = length (filter (\<lambda>repo. totalExplicitAdmins api orgName repo = 0) (activeRepos repos))"
    by (rule facts(4))
  show "noAdminRepos securityRepoReport
        = slice0 (maxNoAdminRepos cfg)
            (map (noAdminRow api orgName)
               (filter (\<lambda>repo. totalExplicitAdmins api orgName repo = 0) (activeRepos repos)))"
    by (rule facts(3))
  show "length (unprotectedRepos securityRepoReport)
        = min (totalUnprotected securityRepoReport) (nat (maxUnprotectedRepos cfg))"
    if "0 \<le> maxUnprotectedRepos cfg"
    using that by (simp add: facts(1,2) length_slice0)
  show "length (noAdminRepos securityRepoReport)
        = min (totalNoAdmin securityRepoReport) (nat (maxNoAdminRepos cfg))"
    if "0 \<le> maxNoAdminRepos cfg"
    using that by (simp add: facts(3,4) length_slice0)
next
  assume a: "api_getOrgRepositories api orgName = Inr repos \<and>
    archive_fetchData api cfg cal today orgName = Inr (archiveReport, archiveCalls)"
  note facts = archive_report_lists [OF conjunct1 [OF a] conjunct2 [OF a]]
  show "archive_totalInactive archiveReport
        = length (inactiveRows api cfg cal today orgName repos)"
    by (rule facts(2))
  show "archive_inactiveRepos archiveReport
        = slice0 (maxInactiveRepos cfg)
            (array_sort compareInactive (inactiveRows api cfg cal today orgName repos))"
    by (rule facts(1))
  show "mset (array_sort compareInactive (inactiveRows api cfg cal today orgName repos))
        = mset (inactiveRows api cfg cal today orgName repos)"
    by (rule mset_array_sort)
  show "sorted_wrt inactiveOrder
        (array_sort compareInactive (inactiveRows api cfg cal today orgName repos))"
    by (rule sorted_compareInactive)
  show "length (archive_inactiveRepos archiveReport)
        = min (archive_totalInactive archiveReport) (nat (maxInactiveRepos cfg))"
    if "0 \<le> maxInactiveRepos cfg"
    using that by (simp add: facts length_slice0 length_array_sort)
next
  assume a: "api_getOrgRepositories api orgName = Inr repos \<and>
    security_fetchData api orgName = Inr (securityReport, securityCalls)"
  note fact = security_report_list [OF conjunct1 [OF a] conjunct2 [OF a]]
  show "mset (reposWithAlerts securityReport)
        = mset (concat (map (repoAlertRows api orgName) (activeRepos repos)))"
    unfolding fact by (rule mset_array_sort)
  show "sorted_wrt severityOrder (reposWithAlerts securityReport)"
    unfolding fact by (rule sorted_compareAlerts)
qed

text \<open>
  Claim C6, as stated: every builder truncates its sorted list to the display limit, and
  the cleanup report with limit 2 and three matching repositories returns two rows.
  CleanupNeeded.tsx reads no display limit and stores the sorted arrays whole: with every
  display limit of the configuration set to 2 and three matching repositories (one over
  the branch threshold, two with a stale branch), the stale-branch list of the report has
  three rows.
\<close>

theorem cleanup_list_not_truncated:
  "maxInactiveRepos sample_config = 2 \<and> maxUnprotectedRepos sample_config = 2 \<and>
   maxNoAdminRepos sample_config = 2 \<and>
   cleanup_fetchData sample_service sample_config sample_calendar sample_today ''acme''
     = Inr (sample_cleanup_report, sample_cleanup_calls) \<and>
   map repoName (staleBranches sample_cleanup_report) = [''web'', ''api'', ''docs''] \<and>
   length (staleBranches sample_cleanup_report) = 3"
  by (simp add: sample_cleanup) (simp add: sample_config_def sample_cleanup_report_def sample_stale_rows_def)

section \<open>The builders on the sample organisation\<close>

lemma sample_security:
  "security_fetchData sample_service ''acme'' = Inr (sample_security_report, sample_security_calls)"
  by (simp add: sample_security_fetchData sample_security_report_def sample_security_calls_def)

lemma sample_archive:
  "archive_fetchData sample_service sample_config sample_calendar sample_later ''acme''
     = Inr (sample_archive_report, sample_archive_calls)"
proof -
  have cut: "monthsBefore sample_calendar sample_later (inactiveRepoMonths sample_config)
               = 55296000000"
    by (simp add: sample_calendar_def sample_later_def sample_config_def msPerDay_def)
  have rows: "checkInactive sample_later 55296000000 sample_web None = [sample_inactive sample_web]"
    "checkInactive sample_later 55296000000 sample_api None = [sample_inactive sample_api]"
    "checkInactive sample_later 55296000000 sample_docs None = [sample_inactive sample_docs]"
    "checkInactive sample_later 55296000000 sample_cli None = [sample_inactive sample_cli]"
    by (simp_all add: checkInactive_def Let_def sample_later_def msPerDay_def sample_inactive_def)
  have loop: "archive_loop sample_service ''acme'' sample_later 55296000000
                [sample_web, sample_api, sample_docs, sample_cli] [] [GetOrgRepositories ''acme'']
              = ([sample_inactive sample_web, sample_inactive sample_api,
                  sample_inactive sample_docs, sample_inactive sample_cli], sample_archive_calls)"
    by (simp add: Let_def rows sample_archive_calls_def)
  have sorted: "array_sort compareInactive
                  [sample_inactive sample_web, sample_inactive sample_api,
                   sample_inactive sample_docs, sample_inactive sample_cli]
                = [sample_inactive sample_web, sample_inactive sample_api,
                   sample_inactive sample_docs, sample_inactive sample_cli]"
    by (simp add: array_sort_def compareInactive_def sample_inactive_def)
  have lim: "maxInactiveRepos sample_config = 2" by (simp add: sample_config_def)
  show ?thesis
    by (simp add: archive_fetchData_def sample_active cut loop sorted slice0_def lim
        sample_archive_report_def del: archive_loop.simps)
qed

theorem report_totals_and_display_lists_witness:
  "cleanup_fetchData sample_service sample_config sample_calendar sample_today ''acme''
     = Inr (sample_cleanup_report, sample_cleanup_calls) \<and>
   totalStaleBranchRepos sample_cleanup_report = 3 \<and>
   length (staleBranches sample_cleanup_report) = totalStaleBranchRepos sample_cleanup_report \<and>
   length (staleRows sample_service sample_config sample_calendar sample_today ''acme'' sample_repos)
     = 3 \<and>
   securityRepo_fetchData sample_service sample_config ''acme''
     = Inr (sample_securityRepo_report, sample_securityRepo_calls) \<and>
   totalUnprotected sample_securityRepo_report = 3 \<and>
   length (filter (\<lambda>repo. \<not> repoIsProtected sample_service ''acme'' repo)
             (activeRepos sample_repos)) = 3 \<and>
   length (unprotectedRepos sample_securityRepo_report) = 2 \<and>
   totalNoAdmin sample_securityRepo_report = 3 \<and>
   length (noAdminRepos sample_securityRepo_report) = 2 \<and>
   archive_fetchData sample_service sample_config sample_calendar sample_later ''acme''
     = Inr (sample_archive_report, sample_archive_calls) \<and>
   archive_totalInactive sample_archive_report = 4 \<and>
   length (inactiveRows sample_service sample_config sample_calendar sample_later ''acme''
             sample_repos) = 4 \<and>
   length (archive_inactiveRepos sample_archive_report) = 2 \<and>
   security_fetchData sample_service ''acme'' = Inr (sample_security_report, sample_security_calls) \<and>
   sorted_wrt severityOrder (reposWithAlerts sample_security_report)"
proof -
  have lim: "0 \<le> maxUnprotectedRepos sample_config" "0 \<le> maxNoAdminRepos sample_config"
    "0 \<le> maxInactiveRepos sample_config"
    "nat (maxUnprotectedRepos sample_config) = 2" "nat (maxNoAdminRepos sample_config) = 2"
    "nat (maxInactiveRepos sample_config) = 2"
    by (simp_all add: sample_config_def)
  have tot: "totalUnprotected sample_securityRepo_report = 3"
    "totalNoAdmin sample_securityRepo_report = 3"
    "archive_totalInactive sample_archive_report = 4"
    "totalStaleBranchRepos sample_cleanup_report = 3"
    by (simp_all add: sample_securityRepo_report_def sample_archive_report_def
        sample_cleanup_report_def)
  note inst = report_totals_and_display_lists [where api = sample_service
      and orgName = "''acme''" and repos = sample_repos and cfg = sample_config
      and cal = sample_calendar and cleanupReport = sample_cleanup_report
      and cleanupCalls = sample_cleanup_calls
      and securityRepoReport = sample_securityRepo_report
      and securityRepoCalls = sample_securityRepo_calls
      and archiveReport = sample_archive_report and archiveCalls = sample_archive_calls
      and securityReport = sample_security_report and securityCalls = sample_security_calls]
  have repos: "api_getOrgRepositories sample_service ''acme'' = Inr sample_repos"
    by simp
  have c: "length (staleBranches sample_cleanup_report) = totalStaleBranchRepos sample_cleanup_report \<and>
           totalStaleBranchRepos sample_cleanup_report
             = length (staleRows sample_service sample_config sample_calendar sample_today ''acme''
                         sample_repos)"
    using inst [where today = sample_today, THEN conjunct1] repos sample_cleanup
    by blast
  have s0: "length (unprotectedRepos sample_securityRepo_report)
              = min (totalUnprotected sample_securityRepo_report) (nat (maxUnprotectedRepos sample_config)) \<and>
           length (noAdminRepos sample_securityRepo_report)
              = min (totalNoAdmin sample_securityRepo_report) (nat (maxNoAdminRepos sample_config)) \<and>
           totalUnprotected sample_securityRepo_report
             = length (filter (\<lambda>repo. \<not> repoIsProtected sample_service ''acme'' repo)
                         (activeRepos sample_repos))"
    using inst [where today = sample_today, THEN conjunct2, THEN conjunct1] repos
      sample_securityRepo lim(1,2)
    by blast
  have s: "length (unprotectedRepos sample_securityRepo_report) = 2 \<and>
           length (noAdminRepos sample_securityRepo_report) = 2 \<and>
           length (filter (\<lambda>repo. \<not> repoIsProtected sample_service ''acme'' repo)
                         (activeRepos sample_repos)) = 3"
    using s0 by (simp add: lim tot)
  have a0: "length (archive_inactiveRepos sample_archive_report)
              = min (archive_totalInactive sample_archive_report) (nat (maxInactiveRepos sample_config)) \<and>
           archive_totalInactive sample_archive_report
             = length (inactiveRows sample_service sample_config sample_calendar sample_later
                         ''acme'' sample_repos)"
    using inst [where today = sample_later, THEN conjunct2, THEN conjunct2, THEN conjunct1] repos
      sample_archive lim(3)
    by blast
  have a: "length (archive_inactiveRepos sample_archive_report) = 2 \<and>
           length (inactiveRows sample_service sample_config sample_calendar sample_later
                         ''acme'' sample_repos) = 4"
    using a0 by (simp add: lim tot)
  have al: "sorted_wrt severityOrder (reposWithAlerts sample_security_report)"
    using inst [where today = sample_today, THEN conjunct2, THEN conjunct2, THEN conjunct2] repos
      sample_security
    by blast
  from c s a al tot show ?thesis
    by (simp add: sample_cleanup sample_securityRepo sample_archive sample_security)
qed


theorem branch_volume_guard_witness:
  "filter (\<lambda>row. repoName row = ''web'') (staleBranches sample_cleanup_report) =
     [\<lparr> repoName = ''web'', repoUrl = ''https://github.com/acme/web'', isWarning = True,
        branchCount = Some 3, staleBranchCount = 0, totalBranches = None, authors = None \<rparr>] \<and>
   branchDetailCalls ''acme'' ''web'' sample_cleanup_calls = [] \<and>
   branchDetailCalls ''acme'' ''api'' sample_cleanup_calls = [''old'']"
proof -
  have names: "distinct (map name (activeRepos sample_repos))"
    by (simp add: sample_active)
  have act: "sample_web \<in> set (activeRepos sample_repos)" "sample_api \<in> set (activeRepos sample_repos)"
    by (simp_all add: sample_active)
  have web: "[\<lparr>branch_name = ''feat-1''\<rparr>, \<lparr>branch_name = ''feat-2''\<rparr>, \<lparr>branch_name = ''feat-3''\<rparr>]
      = filter (\<lambda>b. branch_name b \<noteq> default_branch sample_web)
          (api_getRepoBranches sample_service ''acme'' (name sample_web))"
    by simp
  have api: "[\<lparr>branch_name = ''old''\<rparr>]
      = filter (\<lambda>b. branch_name b \<noteq> default_branch sample_api)
          (api_getRepoBranches sample_service ''acme'' (name sample_api))"
    by simp
  from branch_volume_guard [OF sample_getOrgRepositories sample_cleanup act(1) names web]
  have 1: "filter (\<lambda>row. repoName row = ''web'') (staleBranches sample_cleanup_report) =
     [\<lparr> repoName = ''web'', repoUrl = ''https://github.com/acme/web'', isWarning = True,
        branchCount = Some 3, staleBranchCount = 0, totalBranches = None, authors = None \<rparr>] \<and>
     branchDetailCalls ''acme'' ''web'' sample_cleanup_calls = []"
    by simp
  from branch_volume_guard [OF sample_getOrgRepositories sample_cleanup act(2) names api]
  have 2: "branchDetailCalls ''acme'' ''api'' sample_cleanup_calls = [''old'']"
    by simp
  from 1 2 show ?thesis by blast
qed

section \<open>The order of the alert rows\<close>

text \<open>
  Claim C5, as stated: the rows are ordered by descending count at the tiers critical,
  high, medium and low, and only then by descending total. The comparator has no low
  tier: after medium it compares the totals. In the sample organisation \<open>web\<close> has two
  alerts whose severity is none of the four names and \<open>api\<close> has one low alert; the
  builder lists \<open>web\<close> (low 0, total 2) in front of \<open>api\<close> (low 1, total 1), where
  the stated order puts \<open>api\<close> first.
\<close>

theorem alert_sort_ignores_low_tier:
  "security_fetchData sample_service ''acme'' = Inr (sample_security_report, sample_security_calls) \<and>
   reposWithAlerts sample_security_report = [sample_web_alerts, sample_api_alerts] \<and>
   critical sample_web_alerts = critical sample_api_alerts \<and>
   high sample_web_alerts = high sample_api_alerts \<and>
   medium sample_web_alerts = medium sample_api_alerts \<and>
   low sample_web_alerts = 0 \<and> low sample_api_alerts = 1 \<and>
   totalAlerts sample_web_alerts = 2 \<and> totalAlerts sample_api_alerts = 1 \<and>
   array_sort compareAlerts_spec [sample_web_alerts, sample_api_alerts]
     = [sample_api_alerts, sample_web_alerts]"
  by (simp add: sample_security)
     (simp add: sample_security_report_def sample_web_alerts_def sample_api_alerts_def
        array_sort_def compareAlerts_spec_def)

text \<open>
  Claim C5, amended: the sorted list is a rearrangement of the rows in which every row
  stands in front of the rows with a smaller critical count, then a smaller high count,
  then a smaller medium count, then a smaller or equal total; the low count is not
  compared on its own. When the total of every row is the sum of its four tier counts,
  this is the order by critical, high, medium, low and then total. For the counts
  \<open>{2,0}\<close>, \<open>{1,5}\<close>, \<open>{2,1}\<close> the sorted order is \<open>{2,1}\<close>, \<open>{2,0}\<close>, \<open>{1,5}\<close>.
\<close>

theorem alert_sort_order:
  "mset (array_sort compareAlerts rows) = mset rows \<and>
   sorted_wrt severityOrder (array_sort compareAlerts rows) \<and>
   ((\<forall>r \<in> set rows. totalAlerts r = critical r + high r + medium r + low r) \<longrightarrow>
      array_sort compareAlerts rows = array_sort compareAlerts_spec rows)"
proof (intro conjI impI)
  show "mset (array_sort compareAlerts rows) = mset rows"
    by (rule mset_array_sort)
  show "sorted_wrt severityOrder (array_sort compareAlerts rows)"
    by (rule sorted_compareAlerts)
next
  assume "\<forall>r \<in> set rows. totalAlerts r = critical r + high r + medium r + low r"
  then show "array_sort compareAlerts rows = array_sort compareAlerts_spec rows"
    by (intro array_sort_cong compareAlerts_spec_agree) simp_all
qed

theorem alert_sort_order_witness:
  "array_sort compareAlerts [example_row ''a'' 2 0, example_row ''b'' 1 5, example_row ''c'' 2 1]
     = [example_row ''c'' 2 1, example_row ''a'' 2 0, example_row ''b'' 1 5] \<and>
   sorted_wrt severityOrder
     (array_sort compareAlerts [example_row ''a'' 2 0, example_row ''b'' 1 5, example_row ''c'' 2 1])"
proof -
  let ?rows = "[example_row ''a'' 2 0, example_row ''b'' 1 5, example_row ''c'' 2 1]"
  have sums: "\<forall>r \<in> set ?rows. totalAlerts r = critical r + high r + medium r + low r"
    by (simp add: example_row_def)
  have spec: "array_sort compareAlerts_spec ?rows
                = [example_row ''c'' 2 1, example_row ''a'' 2 0, example_row ''b'' 1 5]"
    by (simp add: array_sort_def compareAlerts_spec_def example_row_def)
  from alert_sort_order [of ?rows] sums
  have same: "array_sort compareAlerts ?rows = array_sort compareAlerts_spec ?rows"
    and sorted: "sorted_wrt severityOrder (array_sort compareAlerts ?rows)"
    by blast+
  from same spec have "array_sort compareAlerts ?rows
      = [example_row ''c'' 2 1, example_row ''a'' 2 0, example_row ''b'' 1 5]"
    by (rule trans)
  with sorted show ?thesis by blast
qed

end
